theory Spec2Isabelle
  imports Complex_Main "HOL-Library.Sublist"
begin

section \<open>JavaScript values\<close>

text \<open>
  The server of the expense-management proof of concept turns the OCR result of a
  receipt into a double-entry journal entry (\<^verbatim>\<open>generateJournalEntry\<close>), with
  \<^verbatim>\<open>createFallbackJournalEntry\<close> as the deterministic alternative when the text model
  gives nothing usable. This theory embeds that derivation.

  A JavaScript Number is modelled as an exact rational or \<^verbatim>\<open>NaN\<close>: the arithmetic of
  the model is exact, the rounding of IEEE doubles and the infinities are not modelled.
  Strings are lists of characters, one per code unit, and the text is taken to be ASCII.
\<close>

datatype num = NaN | Fin rat

datatype js =
    Undefined
  | Null
  | Bool bool
  | Num num
  | Str string
  | Arr "js list"
  | Obj "(string \<times> js) list"

text \<open>
  \<^verbatim>\<open>TypeError\<close>: a property read on \<^verbatim>\<open>null\<close> or \<^verbatim>\<open>undefined\<close>, or a call of a method
  the value does not have. \<^verbatim>\<open>ApiError\<close>: the request to the text model failed (transport
  failure or non-success response). The last two are the errors thrown by the response
  parsing of \<^verbatim>\<open>generateJournalEntry\<close>.
\<close>

datatype error = TypeError | ApiError | InvalidJSON | NoJSONFound

fun nullish :: "js \<Rightarrow> bool" where
  "nullish Undefined = True"
| "nullish Null = True"
| "nullish _ = False"

text \<open>
  \<^verbatim>\<open>v.k\<close> for a value that is not nullish (on a nullish value the read throws, which
  every caller below checks first). The keys of an object are distinct, as in every
  object that \<^verbatim>\<open>JSON.parse\<close> builds; strings, numbers, booleans and arrays have none of
  the keys this program reads.
\<close>

fun field :: "js \<Rightarrow> string \<Rightarrow> js" where
  "field (Obj kvs) k = (case map_of kvs k of Some v \<Rightarrow> v | None \<Rightarrow> Undefined)"
| "field _ k = Undefined"

fun truthy :: "js \<Rightarrow> bool" where
  "truthy Undefined = False"
| "truthy Null = False"
| "truthy (Bool b) = b"
| "truthy (Num NaN) = False"
| "truthy (Num (Fin x)) = (x \<noteq> 0)"
| "truthy (Str s) = (s \<noteq> [])"
| "truthy (Arr xs) = True"
| "truthy (Obj kvs) = True"

fun isNumber :: "js \<Rightarrow> bool" where
  "isNumber (Num n) = True"
| "isNumber _ = False"

fun isString :: "js \<Rightarrow> bool" where
  "isString (Str s) = True"
| "isString _ = False"

fun numOf :: "js \<Rightarrow> num" where
  "numOf (Num n) = n"
| "numOf _ = NaN"

fun strOf :: "js \<Rightarrow> string" where
  "strOf (Str s) = s"
| "strOf _ = []"

subsection \<open>Characters and strings\<close>

definition isUpper :: "char \<Rightarrow> bool" where
  "isUpper c = (let n = (of_char c :: nat) in 65 \<le> n \<and> n \<le> 90)"

definition isLower :: "char \<Rightarrow> bool" where
  "isLower c = (let n = (of_char c :: nat) in 97 \<le> n \<and> n \<le> 122)"

definition isDigit :: "char \<Rightarrow> bool" where
  "isDigit c = (let n = (of_char c :: nat) in 48 \<le> n \<and> n \<le> 57)"

text \<open>The class \<^verbatim>\<open>\s\<close> on ASCII text: space, tab, line feed, vertical tab, form feed, carriage return.\<close>

definition isSpaceJS :: "char \<Rightarrow> bool" where
  "isSpaceJS c = (let n = (of_char c :: nat) in n = 32 \<or> (9 \<le> n \<and> n \<le> 13))"

definition isLineTerminator :: "char \<Rightarrow> bool" where
  "isLineTerminator c = (let n = (of_char c :: nat) in n = 10 \<or> n = 13)"

definition lowerChar :: "char \<Rightarrow> char" where
  "lowerChar c = (if isUpper c then char_of ((of_char c :: nat) + 32) else c)"

definition toLowerCase :: "string \<Rightarrow> string" where
  "toLowerCase s = map lowerChar s"

text \<open>\<^verbatim>\<open>s.includes(p)\<close>.\<close>

fun str_includes :: "string \<Rightarrow> string \<Rightarrow> bool" where
  "str_includes [] p = (p = [])"
| "str_includes (c # cs) p = (prefix p (c # cs) \<or> str_includes cs p)"

definition dropWhileEnd :: "('a \<Rightarrow> bool) \<Rightarrow> 'a list \<Rightarrow> 'a list" where
  "dropWhileEnd P xs = rev (dropWhile P (rev xs))"

text \<open>\<^verbatim>\<open>s.trim()\<close>.\<close>

definition trim :: "string \<Rightarrow> string" where
  "trim s = dropWhile isSpaceJS (dropWhileEnd isSpaceJS s)"

subsection \<open>Numbers\<close>

definition digitVal :: "char \<Rightarrow> nat" where
  "digitVal c = of_char c - 48"

definition natOfDigits :: "string \<Rightarrow> nat" where
  "natOfDigits ds = foldl (\<lambda>n c. 10 * n + digitVal c) 0 ds"

text \<open>
  \<^verbatim>\<open>parseFloat(s)\<close> on the strings this program passes to it, which hold digits and
  dots only: the longest prefix that is a decimal literal (digits, then optionally a dot
  and digits; or a dot and at least one digit), \<^verbatim>\<open>NaN\<close> when there is none.
\<close>

definition parseFloat :: "string \<Rightarrow> num" where
  "parseFloat s =
     (let ip = takeWhile isDigit s;
          r = dropWhile isDigit s;
          fp = (case r of [] \<Rightarrow> [] | c # t \<Rightarrow> if c = CHR ''.'' then takeWhile isDigit t else [])
      in if ip = [] \<and> fp = [] then NaN
         else Fin (of_nat (natOfDigits ip) + of_nat (natOfDigits fp) / 10 ^ length fp))"

text \<open>
  \<^verbatim>\<open>parseFloat(x.toFixed(2))\<close>: \<^verbatim>\<open>toFixed(2)\<close> prints the integer \<open>n\<close> for which
  \<open>n / 100\<close> is nearest to the magnitude of \<open>x\<close> (the larger \<open>n\<close> on a tie) with the sign
  of \<open>x\<close>, and prints \<open>x\<close> itself from \<open>10\<^sup>2\<^sup>1\<close> on; \<^verbatim>\<open>NaN\<close> is printed as "NaN", which
  \<^verbatim>\<open>parseFloat\<close> reads back as \<^verbatim>\<open>NaN\<close>.
\<close>

definition toFixed2 :: "num \<Rightarrow> num" where
  "toFixed2 n =
     (case n of
        NaN \<Rightarrow> NaN
      | Fin x \<Rightarrow>
          if \<bar>x\<bar> < 10 ^ 21 then Fin (sgn x * of_int \<lfloor>\<bar>x\<bar> * 100 + 1 / 2\<rfloor> / 100)
          else Fin x)"

text \<open>\<^verbatim>\<open>a / b\<close>, \<^verbatim>\<open>a - b\<close>, \<^verbatim>\<open>a + b\<close> and \<^verbatim>\<open>a > b\<close> on numbers; the program divides by 1.19 only.\<close>

fun num_div :: "num \<Rightarrow> num \<Rightarrow> num" where
  "num_div (Fin x) (Fin y) = (if y = 0 then NaN else Fin (x / y))"
| "num_div _ _ = NaN"

fun num_sub :: "num \<Rightarrow> num \<Rightarrow> num" where
  "num_sub (Fin x) (Fin y) = Fin (x - y)"
| "num_sub _ _ = NaN"

fun num_add :: "num \<Rightarrow> num \<Rightarrow> num" where
  "num_add (Fin x) (Fin y) = Fin (x + y)"
| "num_add _ _ = NaN"

fun num_gt :: "num \<Rightarrow> num \<Rightarrow> bool" where
  "num_gt (Fin x) (Fin y) = (y < x)"
| "num_gt _ _ = False"

text \<open>\<^verbatim>\<open>a === b\<close> on numbers: \<^verbatim>\<open>NaN\<close> equals nothing, itself included.\<close>

fun num_eq :: "num \<Rightarrow> num \<Rightarrow> bool" where
  "num_eq (Fin x) (Fin y) = (x = y)"
| "num_eq _ _ = False"

text \<open>Equality within the tolerance of 0.01 currency units.\<close>

fun within001 :: "num \<Rightarrow> num \<Rightarrow> bool" where
  "within001 (Fin x) (Fin y) = (\<bar>x - y\<bar> \<le> 1 / 100)"
| "within001 _ _ = False"

fun max2 :: "num \<Rightarrow> num \<Rightarrow> num" where
  "max2 (Fin x) (Fin y) = Fin (max x y)"
| "max2 _ _ = NaN"

text \<open>
  \<^verbatim>\<open>Math.max(...ns)\<close>: \<^verbatim>\<open>NaN\<close> as soon as one argument is. The program calls it on a
  non-empty list only, taken to be short enough to be spread into arguments.
\<close>

fun Math_max :: "num list \<Rightarrow> num" where
  "Math_max [] = NaN"
| "Math_max (n # ns) = foldl max2 n ns"

section \<open>The built-ins and the outside world\<close>

text \<open>
  What the derivation takes from outside the repository is a parameter of every function
  below: \<^verbatim>\<open>JSON.stringify\<close> and \<^verbatim>\<open>JSON.parse\<close> (\<open>None\<close> when it throws),
  \<open>Date_en_GB v\<close> for \<^verbatim>\<open>new Date(v)\<close> followed by \<^verbatim>\<open>toLocaleDateString('en-GB')\<close>
  (\<open>None\<close> when the date is invalid), \<open>today\<close> for
  \<^verbatim>\<open>new Date().toLocaleDateString('en-GB')\<close>, and \<open>completion\<close> for the outcome of the
  request to the text model: the content of its first choice, or the error raised.
\<close>

record env =
  JSON_stringify :: "js \<Rightarrow> string"
  JSON_parse :: "string \<Rightarrow> js option"
  Date_en_GB :: "js \<Rightarrow> string option"
  today :: string
  completion :: "error + string"

section \<open>Field extraction\<close>

subsection \<open>\<^verbatim>\<open>extractAmountFromOCR\<close>\<close>

text \<open>
  The tokens of \<^verbatim>\<open>/[\d,]+\.?\d{0,2}/g\<close>: a maximal run of digits and commas, then a dot
  if one follows, then up to two digits. \<open>amountTokenTail\<close> is the rest of a token after
  its first character, \<open>amountTokenRest\<close> the text after the token.
\<close>

definition isDigitOrComma :: "char \<Rightarrow> bool" where
  "isDigitOrComma c = (isDigit c \<or> c = CHR '','')"

definition amountTokenTail :: "string \<Rightarrow> string" where
  "amountTokenTail cs =
     (let run = takeWhile isDigitOrComma cs; r = dropWhile isDigitOrComma cs
      in case r of
           [] \<Rightarrow> run
         | d # t \<Rightarrow> if d = CHR ''.'' then run @ [d] @ take 2 (takeWhile isDigit t) else run)"

definition amountTokenRest :: "string \<Rightarrow> string" where
  "amountTokenRest cs =
     (let r = dropWhile isDigitOrComma cs
      in case r of
           [] \<Rightarrow> []
         | d # t \<Rightarrow> if d = CHR ''.'' then drop (length (take 2 (takeWhile isDigit t))) t else r)"

lemma length_amountTokenRest: "length (amountTokenRest cs) \<le> length cs"
proof -
  have "length (dropWhile isDigitOrComma cs) \<le> length cs"
    by (rule length_dropWhile_le)
  then show ?thesis
    by (auto simp: amountTokenRest_def Let_def split: list.splits)
qed

function amountTokens :: "string \<Rightarrow> string list" where
  "amountTokens [] = []"
| "amountTokens (c # cs) =
     (if isDigitOrComma c then (c # amountTokenTail cs) # amountTokens (amountTokenRest cs)
      else amountTokens cs)"
  by pat_completeness auto
termination
  by (relation "measure length") (auto simp: length_amountTokenRest le_imp_less_Suc)

text \<open>
  The body of the \<^verbatim>\<open>try\<close> block: \<open>Inl\<close> when it throws (only a nullish
  \<^verbatim>\<open>ocrData\<close> makes the property reads throw), \<open>Inr (Some a)\<close> when it returns \<open>a\<close>,
  \<open>Inr None\<close> when it falls through to the default.
\<close>

definition tryExtractAmount :: "env \<Rightarrow> js \<Rightarrow> error + num option" where
  "tryExtractAmount e ocrData =
     (if nullish ocrData then Inl TypeError
      else
        let total = field ocrData ''total'';
            totalAmount = field ocrData ''totalAmount'';
            parsed = parseFloat (filter (\<lambda>c. isDigit c \<or> c = CHR ''.'') (strOf total));
            dataStr = toLowerCase (JSON_stringify e ocrData);
            amountMatches = amountTokens dataStr;
            amounts = map (\<lambda>a. parseFloat (filter (\<lambda>c. c \<noteq> CHR '','') a)) amountMatches
        in Inr
          (if truthy total \<and> isNumber total then Some (numOf total)
           else if truthy totalAmount \<and> isNumber totalAmount then Some (numOf totalAmount)
           else if truthy total \<and> isString total \<and> parsed \<noteq> NaN then Some parsed
           else if amountMatches \<noteq> [] then Some (Math_max amounts)
           else None))"

definition extractAmountFromOCR :: "env \<Rightarrow> js \<Rightarrow> num" where
  "extractAmountFromOCR e ocrData =
     (case tryExtractAmount e ocrData of
        Inr (Some a) \<Rightarrow> a
      | Inr None \<Rightarrow> Fin 10
      | Inl err \<Rightarrow> Fin 10)"

subsection \<open>\<^verbatim>\<open>extractDateFromOCR\<close>\<close>

text \<open>
  A match of \<^verbatim>\<open>/\d{1,2}[\/\-\.]\d{1,2}[\/\-\.]\d{2,4}/\<close> at the head of the text. Each digit
  group is greedy; a group of one or two digits that is followed by a further digit has
  no separator after it whichever length is tried, so no backtracking changes the result.
\<close>

definition isDateSep :: "char \<Rightarrow> bool" where
  "isDateSep c = (c = CHR ''/'' \<or> c = CHR ''-'' \<or> c = CHR ''.'')"

definition digitsUpTo :: "nat \<Rightarrow> string \<Rightarrow> string" where
  "digitsUpTo n s = take n (takeWhile isDigit s)"

definition matchDateAt :: "string \<Rightarrow> string option" where
  "matchDateAt s =
     (let d1 = digitsUpTo 2 s in
      if d1 = [] then None
      else case drop (length d1) s of
        [] \<Rightarrow> None
      | c1 # r2 \<Rightarrow>
          let d2 = digitsUpTo 2 r2 in
          if \<not> isDateSep c1 \<or> d2 = [] then None
          else (case drop (length d2) r2 of
            [] \<Rightarrow> None
          | c2 # r4 \<Rightarrow>
              let d3 = digitsUpTo 4 r4 in
              if \<not> isDateSep c2 \<or> length d3 < 2 then None
              else Some (d1 @ [c1] @ d2 @ [c2] @ d3)))"

text \<open>The leftmost match of a pattern that is given by its matcher at the head of a text.\<close>

fun firstMatch :: "(string \<Rightarrow> string option) \<Rightarrow> string \<Rightarrow> string option" where
  "firstMatch m [] = m []"
| "firstMatch m (c # cs) = (case m (c # cs) of Some x \<Rightarrow> Some x | None \<Rightarrow> firstMatch m cs)"

text \<open>
  The body of the \<^verbatim>\<open>try\<close> block, \<open>Inl\<close> when it throws; the result \<open>None\<close> is the
  \<^verbatim>\<open>null\<close> that the function returns when no date is found.
\<close>

definition tryExtractDate :: "env \<Rightarrow> js \<Rightarrow> error + string option" where
  "tryExtractDate e ocrData =
     (if nullish ocrData then Inl TypeError
      else
        let d = field ocrData ''date'';
            p = field ocrData ''purchaseDate''
        in Inr
          (if truthy d \<and> Date_en_GB e d \<noteq> None then Date_en_GB e d
           else if truthy p \<and> Date_en_GB e p \<noteq> None then Date_en_GB e p
           else (case firstMatch matchDateAt (JSON_stringify e ocrData) of
                   None \<Rightarrow> None
                 | Some m \<Rightarrow> Date_en_GB e (Str m))))"

definition extractDateFromOCR :: "env \<Rightarrow> js \<Rightarrow> string option" where
  "extractDateFromOCR e ocrData =
     (case tryExtractDate e ocrData of Inr r \<Rightarrow> r | Inl err \<Rightarrow> None)"

section \<open>The fallback journal builder\<close>

datatype entryType = Debit | Credit

record ledgerLine =
  l_type :: entryType
  l_account :: string
  l_amount :: num
  l_description :: string

record lineItem =
  i_description :: string
  i_quantity :: num
  i_unitPrice :: num
  i_total :: num
  i_vatRate :: num
  i_category :: string

record vatBreakdown =
  netAmount :: num
  vatAmount :: num
  grossAmount :: num
  vatRate :: num

record journalEntry =
  date :: string
  description :: string
  reference :: string
  merchant :: string
  entries :: "ledgerLine list"
  lineItems :: "lineItem list"
  vatBreakdown :: vatBreakdown
  totalDebit :: num
  totalCredit :: num

subsection \<open>The VAT decision and split\<close>

definition hasVAT :: "string \<Rightarrow> bool" where
  "hasVAT ocrText =
     (str_includes ocrText ''vat'' \<or> str_includes ocrText ''tax'' \<or> str_includes ocrText ''19%'')"

definition netAmountOf :: "bool \<Rightarrow> num \<Rightarrow> num" where
  "netAmountOf hv amount = (if hv then num_div amount (Fin (119 / 100)) else amount)"

definition vatAmountOf :: "bool \<Rightarrow> num \<Rightarrow> num" where
  "vatAmountOf hv amount = (if hv then num_sub amount (netAmountOf hv amount) else Fin 0)"

definition vatRateOf :: "bool \<Rightarrow> num" where
  "vatRateOf hv = (if hv then Fin (19 / 100) else Fin 0)"

subsection \<open>The merchant\<close>

text \<open>
  The three patterns tried on the serialized OCR data when no merchant field is set, each
  by its matcher at the head of a text:
  \<^verbatim>\<open>/([A-Z][A-Z\s&]+[A-Z])/g\<close> (the greedy middle run gives characters back until an
  upper-case letter ends the match), \<^verbatim>\<open>/"([^"]+)"/g\<close> and
  \<^verbatim>\<open>/^([A-Z][A-Za-z\s]+)/m\<close>, whose match starts a line.
\<close>

definition capsAt :: "string \<Rightarrow> string option" where
  "capsAt s =
     (case s of
        [] \<Rightarrow> None
      | c # cs \<Rightarrow>
          let run = dropWhileEnd (\<lambda>x. \<not> isUpper x)
                      (takeWhile (\<lambda>x. isUpper x \<or> isSpaceJS x \<or> x = CHR ''&'') cs)
          in if isUpper c \<and> 2 \<le> length run then Some (c # run) else None)"

definition quotedAt :: "string \<Rightarrow> string option" where
  "quotedAt s =
     (case s of
        [] \<Rightarrow> None
      | c # cs \<Rightarrow>
          let run = takeWhile (\<lambda>x. x \<noteq> CHR ''\"'') cs;
              r = dropWhile (\<lambda>x. x \<noteq> CHR ''\"'') cs
          in if c = CHR ''\"'' \<and> run \<noteq> [] \<and> r \<noteq> [] then Some (c # run @ [CHR ''\"'']) else None)"

definition wordsAt :: "string \<Rightarrow> string option" where
  "wordsAt s =
     (case s of
        [] \<Rightarrow> None
      | c # cs \<Rightarrow>
          let run = takeWhile (\<lambda>x. isUpper x \<or> isLower x \<or> isSpaceJS x) cs
          in if isUpper c \<and> run \<noteq> [] then Some (c # run) else None)"

text \<open>The leftmost match of the third pattern; the flag says that the head starts a line.\<close>

fun firstLineMatch :: "bool \<Rightarrow> string \<Rightarrow> string option" where
  "firstLineMatch b [] = None"
| "firstLineMatch b (c # cs) =
     (case (if b then wordsAt (c # cs) else None) of
        Some x \<Rightarrow> Some x
      | None \<Rightarrow> firstLineMatch (isLineTerminator c) cs)"

text \<open>
  One round of the loop over the patterns: the first match is taken when it has more
  than 3 and fewer than 50 characters, with its quotes removed and trimmed.
\<close>

definition merchantCandidate :: "string option \<Rightarrow> string option" where
  "merchantCandidate m =
     (case m of
        None \<Rightarrow> None
      | Some x \<Rightarrow>
          if 3 < length x \<and> length x < 50
          then Some (trim (filter (\<lambda>c. c \<noteq> CHR 0x27 \<and> c \<noteq> CHR ''\"'') x))
          else None)"

definition patternMerchant :: "string \<Rightarrow> string" where
  "patternMerchant s =
     (case merchantCandidate (firstMatch capsAt s) of
        Some m \<Rightarrow> m
      | None \<Rightarrow>
          (case merchantCandidate (firstMatch quotedAt s) of
             Some m \<Rightarrow> m
           | None \<Rightarrow>
               (case merchantCandidate (firstLineMatch True s) of
                  Some m \<Rightarrow> m
                | None \<Rightarrow> ''Unknown Merchant'')))"

text \<open>
  The variable \<^verbatim>\<open>merchant\<close> before \<^verbatim>\<open>merchant.toLowerCase()\<close>: the first truthy of the
  three fields, whatever its type, or else the string found by the patterns.
\<close>

definition merchantOf :: "env \<Rightarrow> js \<Rightarrow> js" where
  "merchantOf e ocrData =
     (let establishment = field ocrData ''establishment'';
          merchantName = field ocrData ''merchantName'';
          vendor = field ocrData ''vendor''
      in if truthy establishment \<or> truthy merchantName \<or> truthy vendor
         then (if truthy establishment then establishment
               else if truthy merchantName then merchantName else vendor)
         else Str (patternMerchant (JSON_stringify e ocrData)))"

subsection \<open>The expense account\<close>

text \<open>The chain of \<^verbatim>\<open>if\<close> / \<^verbatim>\<open>else if\<close>: the expense account and the description.\<close>

definition classify :: "string \<Rightarrow> string \<Rightarrow> string \<times> string" where
  "classify merchantLower ocrText =
     (if str_includes merchantLower ''restaurant'' \<or> str_includes merchantLower ''cafe''
         \<or> str_includes merchantLower ''food'' \<or> str_includes ocrText ''restaurant''
         \<or> str_includes ocrText ''cafe'' \<or> str_includes ocrText ''food''
      then (''Meals & Entertainment'', ''Restaurant/Food expense'')
      else if str_includes merchantLower ''gas'' \<or> str_includes merchantLower ''fuel''
         \<or> str_includes merchantLower ''petrol'' \<or> str_includes ocrText ''gas''
         \<or> str_includes ocrText ''fuel'' \<or> str_includes ocrText ''petrol''
      then (''Fuel & Transportation'', ''Fuel expense'')
      else if str_includes merchantLower ''office'' \<or> str_includes merchantLower ''supplies''
         \<or> str_includes merchantLower ''stationery'' \<or> str_includes ocrText ''office''
         \<or> str_includes ocrText ''supplies'' \<or> str_includes ocrText ''stationery''
      then (''Office Supplies'', ''Office supplies'')
      else if str_includes merchantLower ''hotel'' \<or> str_includes merchantLower ''accommodation''
         \<or> str_includes ocrText ''hotel'' \<or> str_includes ocrText ''accommodation''
      then (''Travel & Accommodation'', ''Travel expense'')
      else if str_includes merchantLower ''software'' \<or> str_includes merchantLower ''subscription''
         \<or> str_includes merchantLower ''tech'' \<or> str_includes ocrText ''software''
         \<or> str_includes ocrText ''subscription'' \<or> str_includes ocrText ''tech''
      then (''IT & Software'', ''Software/IT expense'')
      else (''General Expenses'', ''Expense Transaction (OCR processed)''))"

subsection \<open>\<^verbatim>\<open>createFallbackJournalEntry\<close>\<close>

text \<open>
  The array \<^verbatim>\<open>entries\<close>. On the branch that pushes the VAT line \<^verbatim>\<open>vatRate\<close> is 0.19,
  so its description \<^verbatim>\<open>`VAT ${(vatRate * 100).toFixed(0)}%`\<close> is "VAT 19%".
\<close>

definition ledgerEntries :: "bool \<Rightarrow> num \<Rightarrow> string \<Rightarrow> string \<Rightarrow> ledgerLine list" where
  "ledgerEntries hv amount expenseAccount descr =
     [\<lparr>l_type = Debit, l_account = expenseAccount,
       l_amount = toFixed2 (netAmountOf hv amount), l_description = descr\<rparr>]
     @ (if hv \<and> num_gt (vatAmountOf hv amount) (Fin 0)
        then [\<lparr>l_type = Debit, l_account = ''VAT Input Tax'',
               l_amount = toFixed2 (vatAmountOf hv amount), l_description = ''VAT 19%''\<rparr>]
        else [])
     @ [\<lparr>l_type = Credit, l_account = ''Cash/Bank Account'',
         l_amount = toFixed2 amount, l_description = ''Payment''\<rparr>]"

text \<open>
  The builder throws a \<^verbatim>\<open>TypeError\<close> on a nullish \<^verbatim>\<open>ocrData\<close> (at
  \<^verbatim>\<open>JSON.stringify(ocrData).toLowerCase()\<close> for \<^verbatim>\<open>undefined\<close>, at
  \<^verbatim>\<open>ocrData.establishment\<close> for \<^verbatim>\<open>null\<close>) and at \<^verbatim>\<open>merchant.toLowerCase()\<close> when
  the merchant taken from a field is not a string.
\<close>

definition createFallbackJournalEntry :: "env \<Rightarrow> js \<Rightarrow> num \<Rightarrow> string \<Rightarrow> error + journalEntry" where
  "createFallbackJournalEntry e ocrData amount dt =
     (if nullish ocrData then Inl TypeError
      else
        let ocrText = toLowerCase (JSON_stringify e ocrData);
            hv = hasVAT ocrText
        in case merchantOf e ocrData of
             Str m \<Rightarrow>
               let (expenseAccount, descr) = classify (toLowerCase m) ocrText
               in Inr
                 \<lparr>date = dt,
                  description = m @ '' - '' @ descr,
                  reference = ''AUTO-GENERATED'',
                  merchant = m,
                  entries = ledgerEntries hv amount expenseAccount descr,
                  lineItems =
                    [\<lparr>i_description = descr, i_quantity = Fin 1,
                      i_unitPrice = toFixed2 (netAmountOf hv amount),
                      i_total = toFixed2 (netAmountOf hv amount),
                      i_vatRate = vatRateOf hv, i_category = expenseAccount\<rparr>],
                  vatBreakdown =
                    \<lparr>netAmount = toFixed2 (netAmountOf hv amount),
                     vatAmount = toFixed2 (vatAmountOf hv amount),
                     grossAmount = toFixed2 amount,
                     vatRate = vatRateOf hv\<rparr>,
                  totalDebit = toFixed2 amount,
                  totalCredit = toFixed2 amount\<rparr>
           | _ \<Rightarrow> Inl TypeError)"

section \<open>The generative path and the orchestrator\<close>

text \<open>
  \<^verbatim>\<open>s.replace(/lit\s*/g, '')\<close> for a literal that is not empty: every occurrence of the
  literal is removed together with the white space after it, from left to right.
\<close>

function stripFence :: "string \<Rightarrow> string \<Rightarrow> string" where
  "stripFence lit [] = []"
| "stripFence lit (c # cs) =
     (if lit \<noteq> [] \<and> prefix lit (c # cs)
      then stripFence lit (dropWhile isSpaceJS (drop (length lit) (c # cs)))
      else c # stripFence lit cs)"
  by pat_completeness auto
termination
proof (relation "measure (\<lambda>(lit, s). length s)")
  fix lit :: string and c :: char and cs :: string
  assume "lit \<noteq> [] \<and> prefix lit (c # cs)"
  then have "length (drop (length lit) (c # cs)) < length (c # cs)"
    by (cases lit) auto
  moreover have "length (dropWhile isSpaceJS (drop (length lit) (c # cs)))
      \<le> length (drop (length lit) (c # cs))"
    by (rule length_dropWhile_le)
  ultimately show "((lit, dropWhile isSpaceJS (drop (length lit) (c # cs))), (lit, c # cs))
      \<in> measure (\<lambda>(lit, s). length s)"
    by simp
qed auto

text \<open>
  \<^verbatim>\<open>s.match(/\{[\s\S]*\}/)\<close>: the span from the first opening brace of the text to the
  last closing brace after it, if there is one.
\<close>

definition braceSpan :: "string \<Rightarrow> string option" where
  "braceSpan s =
     (let u = dropWhileEnd (\<lambda>c. c \<noteq> CHR ''}'') (dropWhile (\<lambda>c. c \<noteq> CHR ''{'') s)
      in if u = [] then None else Some u)"

text \<open>
  \<^verbatim>\<open>response.replace(/```json\s*/g, '').replace(/```\s*/g, '')\<close>.
\<close>

definition cleanResponse :: "string \<Rightarrow> string" where
  "cleanResponse response = stripFence ''```'' (stripFence ''```json'' response)"

text \<open>
  The parsing of the reply, with its nested \<^verbatim>\<open>try\<close> blocks: the value parsed, or the
  error thrown.
\<close>

definition parseResponse :: "env \<Rightarrow> string \<Rightarrow> error + js" where
  "parseResponse e response =
     (case JSON_parse e response of
        Some j \<Rightarrow> Inr j
      | None \<Rightarrow>
          let cleanedResponse = cleanResponse response
          in (case JSON_parse e cleanedResponse of
                Some j \<Rightarrow> Inr j
              | None \<Rightarrow>
                  (case braceSpan cleanedResponse of
                     Some m \<Rightarrow>
                       (case JSON_parse e m of Some j \<Rightarrow> Inr j | None \<Rightarrow> Inl InvalidJSON)
                   | None \<Rightarrow> Inl NoJSONFound)))"

text \<open>
  What \<^verbatim>\<open>generateJournalEntry\<close> returns: the value that \<^verbatim>\<open>JSON.parse\<close> gave, or the
  object built by \<^verbatim>\<open>createFallbackJournalEntry\<close>.
\<close>

datatype derived = Parsed js | Built journalEntry

text \<open>
  The \<^verbatim>\<open>try\<close> block. Its first two statements (the amount and the date, unused there)
  do not throw; then the request is made and its response parsed.
\<close>

definition tryGenerate :: "env \<Rightarrow> js \<Rightarrow> error + js" where
  "tryGenerate e ocrData =
     (case completion e of
        Inl err \<Rightarrow> Inl err
      | Inr response \<Rightarrow> parseResponse e response)"

text \<open>\<^verbatim>\<open>extractDateFromOCR(ocrData) || new Date().toLocaleDateString('en-GB')\<close>.\<close>

definition fallbackDate :: "env \<Rightarrow> js \<Rightarrow> string" where
  "fallbackDate e ocrData =
     (case extractDateFromOCR e ocrData of
        Some d \<Rightarrow> if d \<noteq> [] then d else today e
      | None \<Rightarrow> today e)"

definition generateJournalEntry :: "env \<Rightarrow> js \<Rightarrow> error + derived" where
  "generateJournalEntry e ocrData =
     (case tryGenerate e ocrData of
        Inr journalEntry \<Rightarrow> Inr (Parsed journalEntry)
      | Inl err \<Rightarrow>
          (case createFallbackJournalEntry e ocrData
                  (extractAmountFromOCR e ocrData) (fallbackDate e ocrData) of
             Inr je \<Rightarrow> Inr (Built je)
           | Inl err' \<Rightarrow> Inl err'))"

section \<open>The measures of the specification\<close>

subsection \<open>The ordered rule table\<close>

text \<open>
  The classifier as the specification words it: an ordered list of keyword rules, each
  tried on the merchant name and on the OCR text; the first rule that matches wins, and
  a default category and description apply when none does.
\<close>

definition categoryRules :: "(string list \<times> string \<times> string) list" where
  "categoryRules =
     [([''restaurant'', ''cafe'', ''food''], ''Meals & Entertainment'', ''Restaurant/Food expense''),
      ([''gas'', ''fuel'', ''petrol''], ''Fuel & Transportation'', ''Fuel expense''),
      ([''office'', ''supplies'', ''stationery''], ''Office Supplies'', ''Office supplies''),
      ([''hotel'', ''accommodation''], ''Travel & Accommodation'', ''Travel expense''),
      ([''software'', ''subscription'', ''tech''], ''IT & Software'', ''Software/IT expense'')]"

definition ruleMatches :: "string \<Rightarrow> string \<Rightarrow> string list \<times> string \<times> string \<Rightarrow> bool" where
  "ruleMatches merchantLower ocrText rule =
     list_ex (\<lambda>k. str_includes merchantLower k \<or> str_includes ocrText k) (fst rule)"

definition classify_spec :: "string \<Rightarrow> string \<Rightarrow> string \<times> string" where
  "classify_spec merchantLower ocrText =
     (case find (ruleMatches merchantLower ocrText) categoryRules of
        Some rule \<Rightarrow> snd rule
      | None \<Rightarrow> (''General Expenses'', ''Expense Transaction (OCR processed)''))"

subsection \<open>Balance\<close>

text \<open>
  The totals of the returned value agree within 0.01: for a parsed value, its properties
  \<^verbatim>\<open>totalDebit\<close> and \<^verbatim>\<open>totalCredit\<close>, which must be numbers.
\<close>

fun totalsBalanced :: "derived \<Rightarrow> bool" where
  "totalsBalanced (Parsed j) =
     (\<not> nullish j \<and> within001 (numOf (field j ''totalDebit'')) (numOf (field j ''totalCredit'')))"
| "totalsBalanced (Built je) = within001 (totalDebit je) (totalCredit je)"

text \<open>The sum of the amounts of the ledger lines of one type.\<close>

definition sumByType :: "entryType \<Rightarrow> ledgerLine list \<Rightarrow> num" where
  "sumByType ty ls = foldl num_add (Fin 0) (map l_amount (filter (\<lambda>l. l_type l = ty) ls))"

text \<open>The totals of a built entry, next to the sums of its debit and of its credit lines.\<close>

definition balanceSheet :: "journalEntry \<Rightarrow> num \<times> num \<times> num \<times> num \<times> num" where
  "balanceSheet je =
     (sumByType Debit (entries je), sumByType Credit (entries je),
      totalDebit je, totalCredit je, grossAmount (vatBreakdown je))"

section \<open>Reference built-ins\<close>

text \<open>
  An instance of the built-ins for the examples: \<^verbatim>\<open>JSON.stringify\<close> and
  \<^verbatim>\<open>JSON.parse\<close> on ASCII text without \<^verbatim>\<open>\u\<close> escapes and on numbers that are short
  decimals, and a date parser that knows ISO dates (year-month-day) only, in a process
  whose time zone is UTC.
\<close>

definition digitChar :: "nat \<Rightarrow> char" where
  "digitChar d = char_of (48 + d)"

function showNat :: "nat \<Rightarrow> string" where
  "showNat n = (if n < 10 then [digitChar n] else showNat (n div 10) @ [digitChar (n mod 10)])"
  by pat_completeness auto
termination
  by (relation "measure id") auto

fun fracDigits :: "nat \<Rightarrow> rat \<Rightarrow> string" where
  "fracDigits 0 r = []"
| "fracDigits (Suc k) r =
     (if r = 0 then []
      else digitChar (nat \<lfloor>r * 10\<rfloor>) # fracDigits k (r * 10 - of_int \<lfloor>r * 10\<rfloor>))"

definition showNum :: "num \<Rightarrow> string" where
  "showNum n =
     (case n of
        NaN \<Rightarrow> ''null''
      | Fin q \<Rightarrow>
          (if q < 0 then ''-'' else [])
          @ showNat (nat \<lfloor>\<bar>q\<bar>\<rfloor>)
          @ (if \<bar>q\<bar> = of_int \<lfloor>\<bar>q\<bar>\<rfloor> then []
             else ''.'' @ fracDigits 20 (\<bar>q\<bar> - of_int \<lfloor>\<bar>q\<bar>\<rfloor>)))"

definition hexDigit :: "nat \<Rightarrow> char" where
  "hexDigit d = (if d < 10 then char_of (48 + d) else char_of (87 + d))"

definition escapeChar :: "char \<Rightarrow> string" where
  "escapeChar c =
     (let n = (of_char c :: nat) in
      if n = 34 then [CHR 0x5C, CHR 0x22]
      else if n = 92 then [CHR 0x5C, CHR 0x5C]
      else if n = 8 then [CHR 0x5C, CHR ''b'']
      else if n = 12 then [CHR 0x5C, CHR ''f'']
      else if n = 10 then [CHR 0x5C, CHR ''n'']
      else if n = 13 then [CHR 0x5C, CHR ''r'']
      else if n = 9 then [CHR 0x5C, CHR ''t'']
      else if n < 32 then [CHR 0x5C, CHR ''u'', CHR ''0'', CHR ''0'', hexDigit (n div 16), hexDigit (n mod 16)]
      else [c])"

definition quoteJSON :: "string \<Rightarrow> string" where
  "quoteJSON s = [CHR 0x22] @ concat (map escapeChar s) @ [CHR 0x22]"

fun joinComma :: "string list \<Rightarrow> string" where
  "joinComma [] = []"
| "joinComma [x] = x"
| "joinComma (x # y # ys) = x @ '','' @ joinComma (y # ys)"

fun ref_stringify :: "js \<Rightarrow> string"
  and ref_stringifyElems :: "js list \<Rightarrow> string list"
  and ref_stringifyMembers :: "(string \<times> js) list \<Rightarrow> string list" where
  "ref_stringify Undefined = ''null''"
| "ref_stringify Null = ''null''"
| "ref_stringify (Bool b) = (if b then ''true'' else ''false'')"
| "ref_stringify (Num n) = showNum n"
| "ref_stringify (Str s) = quoteJSON s"
| "ref_stringify (Arr xs) = ''['' @ joinComma (ref_stringifyElems xs) @ '']''"
| "ref_stringify (Obj kvs) = ''{'' @ joinComma (ref_stringifyMembers kvs) @ ''}''"
| "ref_stringifyElems [] = []"
| "ref_stringifyElems (x # xs) = ref_stringify x # ref_stringifyElems xs"
| "ref_stringifyMembers [] = []"
| "ref_stringifyMembers (kv # kvs) =
     (if snd kv = Undefined then ref_stringifyMembers kvs
      else (quoteJSON (fst kv) @ '':'' @ ref_stringify (snd kv)) # ref_stringifyMembers kvs)"

definition isJsonWs :: "char \<Rightarrow> bool" where
  "isJsonWs c = (let n = (of_char c :: nat) in n = 32 \<or> n = 9 \<or> n = 10 \<or> n = 13)"

definition skipWs :: "string \<Rightarrow> string" where
  "skipWs s = dropWhile isJsonWs s"

definition expectChar :: "char \<Rightarrow> string \<Rightarrow> string option" where
  "expectChar c s = (case skipWs s of [] \<Rightarrow> None | d # r \<Rightarrow> if d = c then Some r else None)"

definition unescape :: "char \<Rightarrow> char option" where
  "unescape c =
     (if c = CHR 0x22 \<or> c = CHR 0x5C \<or> c = CHR ''/'' then Some c
      else if c = CHR ''b'' then Some (CHR 0x08)
      else if c = CHR ''f'' then Some (CHR 0x0C)
      else if c = CHR ''n'' then Some (CHR 0x0A)
      else if c = CHR ''r'' then Some (CHR 0x0D)
      else if c = CHR ''t'' then Some (CHR 0x09)
      else None)"

text \<open>The characters of a string literal after its opening quote, and the text after it.\<close>

fun parseStringBody :: "string \<Rightarrow> string \<Rightarrow> (string \<times> string) option" where
  "parseStringBody acc [] = None"
| "parseStringBody acc [c] = (if c = CHR 0x22 then Some (rev acc, []) else None)"
| "parseStringBody acc (c # d # cs) =
     (if c = CHR 0x22 then Some (rev acc, d # cs)
      else if c = CHR 0x5C
      then (case unescape d of Some x \<Rightarrow> parseStringBody (x # acc) cs | None \<Rightarrow> None)
      else if (of_char c :: nat) < 32 then None
      else parseStringBody (c # acc) (d # cs))"

definition startsWith :: "char \<Rightarrow> string \<Rightarrow> bool" where
  "startsWith c s = (case s of [] \<Rightarrow> False | d # r \<Rightarrow> d = c)"

definition parseNumber :: "string \<Rightarrow> (js \<times> string) option" where
  "parseNumber s =
     (let neg = startsWith (CHR ''-'') s;
          s1 = (if neg then tl s else s);
          ip = takeWhile isDigit s1;
          r1 = dropWhile isDigit s1;
          hasFrac = startsWith (CHR ''.'') r1;
          fp = (if hasFrac then takeWhile isDigit (tl r1) else []);
          r2 = (if hasFrac then dropWhile isDigit (tl r1) else r1);
          hasExp = (startsWith (CHR ''e'') r2 \<or> startsWith (CHR ''E'') r2);
          r3 = (if hasExp then tl r2 else r2);
          eneg = (hasExp \<and> startsWith (CHR ''-'') r3);
          r4 = (if hasExp \<and> (startsWith (CHR ''-'') r3 \<or> startsWith (CHR ''+'') r3) then tl r3 else r3);
          ed = (if hasExp then takeWhile isDigit r4 else []);
          r5 = (if hasExp then dropWhile isDigit r4 else r2);
          m = (of_nat (natOfDigits ip) + of_nat (natOfDigits fp) / 10 ^ length fp :: rat);
          v = (if eneg then m / 10 ^ natOfDigits ed else m * 10 ^ natOfDigits ed)
      in if ip = [] \<or> (1 < length ip \<and> startsWith (CHR ''0'') ip) \<or> (hasFrac \<and> fp = [])
            \<or> (hasExp \<and> ed = [])
         then None
         else Some (Num (Fin (if neg then - v else v)), r5))"

text \<open>A repeated key keeps its place and takes the later value.\<close>

definition putMember :: "string \<Rightarrow> js \<Rightarrow> (string \<times> js) list \<Rightarrow> (string \<times> js) list" where
  "putMember k v kvs =
     (if map_of kvs k = None then kvs @ [(k, v)]
      else map (\<lambda>kv. if fst kv = k then (k, v) else kv) kvs)"

fun parseValue :: "nat \<Rightarrow> string \<Rightarrow> (js \<times> string) option"
  and parseElems :: "nat \<Rightarrow> js list \<Rightarrow> string \<Rightarrow> (js \<times> string) option"
  and parseMembers :: "nat \<Rightarrow> (string \<times> js) list \<Rightarrow> string \<Rightarrow> (js \<times> string) option" where
  "parseValue 0 s = None"
| "parseValue (Suc n) s =
     (case skipWs s of
        [] \<Rightarrow> None
      | c # cs \<Rightarrow>
          if c = CHR ''{''
          then (case expectChar (CHR ''}'') cs of
                  Some r \<Rightarrow> Some (Obj [], r)
                | None \<Rightarrow> parseMembers n [] cs)
          else if c = CHR ''[''
          then (case expectChar (CHR '']'') cs of
                  Some r \<Rightarrow> Some (Arr [], r)
                | None \<Rightarrow> parseElems n [] cs)
          else if c = CHR 0x22
          then (case parseStringBody [] cs of Some (t, r) \<Rightarrow> Some (Str t, r) | None \<Rightarrow> None)
          else if prefix ''true'' (c # cs) then Some (Bool True, drop 4 (c # cs))
          else if prefix ''false'' (c # cs) then Some (Bool False, drop 5 (c # cs))
          else if prefix ''null'' (c # cs) then Some (Null, drop 4 (c # cs))
          else parseNumber (c # cs))"
| "parseElems 0 acc s = None"
| "parseElems (Suc n) acc s =
     (case parseValue n s of
        None \<Rightarrow> None
      | Some (v, r) \<Rightarrow>
          (case expectChar (CHR '','') r of
             Some r' \<Rightarrow> parseElems n (acc @ [v]) r'
           | None \<Rightarrow>
               (case expectChar (CHR '']'') r of
                  Some r' \<Rightarrow> Some (Arr (acc @ [v]), r')
                | None \<Rightarrow> None)))"
| "parseMembers 0 acc s = None"
| "parseMembers (Suc n) acc s =
     (case expectChar (CHR 0x22) s of
        None \<Rightarrow> None
      | Some r \<Rightarrow>
          (case parseStringBody [] r of
             None \<Rightarrow> None
           | Some (k, r1) \<Rightarrow>
               (case expectChar (CHR '':'') r1 of
                  None \<Rightarrow> None
                | Some r2 \<Rightarrow>
                    (case parseValue n r2 of
                       None \<Rightarrow> None
                     | Some (v, r3) \<Rightarrow>
                         (case expectChar (CHR '','') r3 of
                            Some r4 \<Rightarrow> parseMembers n (putMember k v acc) r4
                          | None \<Rightarrow>
                              (case expectChar (CHR ''}'') r3 of
                                 Some r4 \<Rightarrow> Some (Obj (putMember k v acc), r4)
                               | None \<Rightarrow> None))))))"

definition ref_parse :: "string \<Rightarrow> js option" where
  "ref_parse s =
     (case parseValue (2 * length s + 2) s of
        None \<Rightarrow> None
      | Some (v, r) \<Rightarrow> if skipWs r = [] then Some v else None)"

definition ref_Date_en_GB :: "js \<Rightarrow> string option" where
  "ref_Date_en_GB v =
     (let s = strOf v; y = take 4 s; m = take 2 (drop 5 s); d = drop 8 s
      in if isString v \<and> length s = 10 \<and> filter isDigit (y @ m @ d) = y @ m @ d
            \<and> take 1 (drop 4 s) = ''-'' \<and> take 1 (drop 7 s) = ''-''
            \<and> 1 \<le> natOfDigits m \<and> natOfDigits m \<le> 12
            \<and> 1 \<le> natOfDigits d \<and> natOfDigits d \<le> 28
         then Some (d @ ''/'' @ m @ ''/'' @ y)
         else None)"

definition ref_env :: "string \<Rightarrow> error + string \<Rightarrow> env" where
  "ref_env now outcome =
     \<lparr>JSON_stringify = ref_stringify, JSON_parse = ref_parse, Date_en_GB = ref_Date_en_GB,
      today = now, completion = outcome\<rparr>"

section \<open>Examples\<close>

text \<open>
  The reference built-ins on a day when the text model cannot be reached, the day before,
  and on a day when it replies.
\<close>

definition offline :: env where
  "offline = ref_env ''02/11/2026'' (Inl ApiError)"

definition offlineYesterday :: env where
  "offlineYesterday = ref_env ''01/11/2026'' (Inl ApiError)"

definition online :: "string \<Rightarrow> env" where
  "online reply = ref_env ''02/11/2026'' (Inr reply)"

text \<open>
  Receipts: one with an amount and an establishment only, one that carries its date, one
  that shows its VAT, one whose vendor is not a text, one with a total of more than two
  decimals, a refund, two with no digit in them, and one whose amount is under a key
  that the extractor does not know.
\<close>

definition receiptA :: js where
  "receiptA = Obj [(''total'', Num (Fin (51 / 2))), (''establishment'', Str ''Test Merchant'')]"

definition receiptDated :: js where
  "receiptDated = Obj [(''total'', Num (Fin (51 / 2))), (''establishment'', Str ''Test Merchant''),
     (''date'', Str ''2024-03-15'')]"

definition receiptB :: js where
  "receiptB = Obj [(''establishment'', Str ''Office Depot''), (''total'', Num (Fin 119)),
     (''text'', Str ''Paper A4 VAT 19%'')]"

definition receiptNestedVendor :: js where
  "receiptNestedVendor = Obj [(''vendor'', Obj [(''name'', Str ''Shell'')]), (''total'', Num (Fin 45))]"

definition receiptSubCent :: js where
  "receiptSubCent = Obj [(''establishment'', Str ''Office Depot''),
     (''total'', Num (Fin (10004 / 1000))), (''text'', Str ''incl. VAT 19%'')]"

definition receiptRefund :: js where
  "receiptRefund = Obj [(''establishment'', Str ''Office Depot''),
     (''total'', Num (Fin (- 119))), (''text'', Str ''refund incl. VAT 19%'')]"

definition receiptNoDigits :: js where
  "receiptNoDigits = Obj [(''establishment'', Str ''Cafe Roma''), (''city'', Str ''Nicosia'')]"

definition receiptOneField :: js where
  "receiptOneField = Obj [(''establishment'', Str ''Cafe Roma'')]"

definition receiptAmountField :: js where
  "receiptAmountField = Obj [(''amount'', Num (Fin (51 / 2))), (''shop'', Str ''Kiosk'')]"

text \<open>
  The lower-cased serialization of a receipt from a cafe in an office park.
\<close>

definition cafeOfficeText :: string where
  "cafeOfficeText = ''{\"establishment\":\"office park cafe\",\"total\":12.4}''"

text \<open>
  Replies of the text model: the object inside a Markdown code fence, the object inside a
  sentence, no object at all, an entry whose totals differ, and an object that is no
  entry.
\<close>

definition fencedReply :: string where
  "fencedReply = ''```json'' @ [CHR 0x0A] @ ''{\"totalDebit\": 50, \"totalCredit\": 50}''
     @ [CHR 0x0A] @ ''```''"

definition proseReply :: string where
  "proseReply = ''Here is the journal entry: {\"totalDebit\": 50, \"totalCredit\": 50} Let me know if it helps.''"

definition garbageReply :: string where
  "garbageReply = ''I cannot read this receipt.''"

definition replyObject :: js where
  "replyObject = Obj [(''totalDebit'', Num (Fin 50)), (''totalCredit'', Num (Fin 50))]"

definition unbalancedReply :: string where
  "unbalancedReply = ''{\"date\":\"15/03/2024\",\"description\":\"Shell - Fuel\",\"reference\":\"N/A\",\"merchant\":\"Shell\",\"entries\":[{\"type\":\"debit\",\"account\":\"Fuel Expenses\",\"amount\":119.00,\"description\":\"Fuel\"},{\"type\":\"credit\",\"account\":\"Cash/Bank Account\",\"amount\":100.00,\"description\":\"Card\"}],\"totalDebit\":119.00,\"totalCredit\":100.00}''"

definition unbalancedObject :: js where
  "unbalancedObject =
     Obj [(''date'', Str ''15/03/2024''), (''description'', Str ''Shell - Fuel''),
       (''reference'', Str ''N/A''), (''merchant'', Str ''Shell''),
       (''entries'',
          Arr [Obj [(''type'', Str ''debit''), (''account'', Str ''Fuel Expenses''),
                 (''amount'', Num (Fin 119)), (''description'', Str ''Fuel'')],
               Obj [(''type'', Str ''credit''), (''account'', Str ''Cash/Bank Account''),
                 (''amount'', Num (Fin 100)), (''description'', Str ''Card'')]]),
       (''totalDebit'', Num (Fin 119)), (''totalCredit'', Num (Fin 100))]"

definition bareReply :: string where
  "bareReply = ''{\"note\": \"no entry\"}''"

section \<open>Properties of the fallback builder\<close>

subsection \<open>Rounding to two decimals\<close>

lemma round_half_up_error:
  fixes a :: rat
  assumes "0 \<le> a"
  shows "\<bar>of_int \<lfloor>a * 100 + 1 / 2\<rfloor> / 100 - a\<bar> \<le> 1 / 200"
proof -
  define n :: rat where "n = of_int \<lfloor>a * 100 + 1 / 2\<rfloor>"
  have "n \<le> a * 100 + 1 / 2" and "a * 100 + 1 / 2 < n + 1"
    unfolding n_def by linarith+
  then have "- (1 / 200) \<le> n / 100 - a" and "n / 100 - a \<le> 1 / 200"
    by linarith+
  then have "\<bar>n / 100 - a\<bar> \<le> 1 / 200"
    by linarith
  then show ?thesis
    unfolding n_def .
qed

lemma toFixed2_Fin: "\<exists>y. toFixed2 (Fin x) = Fin y \<and> \<bar>y - x\<bar> \<le> 1 / 200"
proof (cases "\<bar>x\<bar> < 10 ^ 21")
  case False
  then show ?thesis by (simp add: toFixed2_def)
next
  case True
  define r :: rat where "r = of_int \<lfloor>\<bar>x\<bar> * 100 + 1 / 2\<rfloor> / 100"
  have err: "\<bar>r - \<bar>x\<bar>\<bar> \<le> 1 / 200"
    unfolding r_def by (rule round_half_up_error) simp
  have eq: "toFixed2 (Fin x) = Fin (sgn x * r)"
    using True by (simp add: toFixed2_def r_def)
  have "\<bar>sgn x * r - x\<bar> \<le> 1 / 200"
  proof (cases "0 \<le> x")
    case True
    show ?thesis
    proof (cases "x = 0")
      case True
      then show ?thesis by (simp add: r_def)
    next
      case False
      with \<open>0 \<le> x\<close> have "sgn x = 1" and "\<bar>x\<bar> = x" by simp_all
      with err show ?thesis by simp
    qed
  next
    case False
    then have "sgn x = - 1" and "\<bar>x\<bar> = - x" by simp_all
    with err have "\<bar>r + x\<bar> \<le> 1 / 200" by simp
    then have "\<bar>- r - x\<bar> \<le> 1 / 200" by linarith
    with \<open>sgn x = - 1\<close> show ?thesis by simp
  qed
  with eq show ?thesis by blast
qed

lemma rounded_split_within:
  assumes "toFixed2 (Fin a) = Fin a'" and "toFixed2 (Fin b) = Fin b'"
  shows "\<bar>a' + b' - (a + b)\<bar> \<le> 1 / 100"
proof -
  from toFixed2_Fin [of a] assms(1) have "\<bar>a' - a\<bar> \<le> 1 / 200" by auto
  moreover from toFixed2_Fin [of b] assms(2) have "\<bar>b' - b\<bar> \<le> 1 / 200" by auto
  ultimately show ?thesis by linarith
qed

lemma toFixed2_positive:
  fixes x :: rat
  assumes "0 < x" and "x < 10 ^ 21"
  shows "toFixed2 (Fin x) = Fin (of_int \<lfloor>x * 100 + 1 / 2\<rfloor> / 100)"
proof -
  from assms have "\<bar>x\<bar> = x" and "sgn x = 1" and "\<bar>x\<bar> < 10 ^ 21"
    by simp_all
  then show ?thesis
    unfolding toFixed2_def num.case by simp
qed

lemma toFixed2_cents:
  fixes c :: int
  assumes "0 \<le> c" and "of_int c / 100 < (10 :: rat) ^ 21"
  shows "toFixed2 (Fin (of_int c / 100)) = Fin (of_int c / 100)"
proof (cases "c = 0")
  case True
  then show ?thesis by (simp add: toFixed2_def)
next
  case False
  with assms have "0 < c" by simp
  then have s: "sgn (of_int c / 100 :: rat) = 1" and p: "\<bar>of_int c / 100 :: rat\<bar> = of_int c / 100"
    by simp_all
  have f: "\<lfloor>(of_int c / 100 * 100 + 1 / 2 :: rat)\<rfloor> = c"
    by simp linarith
  show ?thesis
    using assms(2) unfolding toFixed2_def num.case p s f by simp
qed

lemma split_of_cents:
  fixes c :: int
  shows "\<lfloor>(of_int c / 119 * 100 + 1 / 2 :: rat)\<rfloor> + \<lfloor>(of_int c * 19 / 119 + 1 / 2 :: rat)\<rfloor> = c"
proof -
  have a: "(of_int c / 119 * 100 + 1 / 2 :: rat) = of_int (200 * c + 119) / of_int 238"
    by simp
  have b: "(of_int c * 19 / 119 + 1 / 2 :: rat) = of_int (38 * c + 119) / of_int 238"
    by simp
  define q1 r1 q2 r2 where "q1 = (200 * c + 119) div 238" and "r1 = (200 * c + 119) mod 238"
    and "q2 = (38 * c + 119) div 238" and "r2 = (38 * c + 119) mod 238"
  have e1: "200 * c + 119 = 238 * q1 + r1" and e2: "38 * c + 119 = 238 * q2 + r2"
    unfolding q1_def r1_def q2_def r2_def by simp_all
  have b1: "0 \<le> r1" "r1 < 238" and b2: "0 \<le> r2" "r2 < 238"
    unfolding r1_def r2_def by simp_all
  have "odd (200 * c + 119)"
    by simp
  then have "\<not> 238 dvd (200 * c + 119)"
    by (meson dvd_trans even_numeral dvd_refl dvd_mult_right [of 2 119 "200 * c + 119"])
  then have "r1 \<noteq> 0"
    unfolding r1_def by (simp add: mod_eq_0_iff_dvd)
  with e1 e2 b1 b2 have "q1 + q2 = c"
    by arith
  then have "(200 * c + 119) div 238 + (38 * c + 119) div 238 = c"
    unfolding q1_def q2_def .
  then show ?thesis
    unfolding a b floor_divide_of_int_eq .
qed

subsection \<open>What the builder returns\<close>

lemma createFallback_Inr:
  assumes "createFallbackJournalEntry e ocrData amount dt = Inr je"
  shows "\<not> nullish ocrData \<and> (\<exists>m. merchantOf e ocrData = Str m \<and>
    je = \<lparr>date = dt,
      description = m @ '' - '' @ snd (classify (toLowerCase m) (toLowerCase (JSON_stringify e ocrData))),
      reference = ''AUTO-GENERATED'',
      merchant = m,
      entries = ledgerEntries (hasVAT (toLowerCase (JSON_stringify e ocrData))) amount
        (fst (classify (toLowerCase m) (toLowerCase (JSON_stringify e ocrData))))
        (snd (classify (toLowerCase m) (toLowerCase (JSON_stringify e ocrData)))),
      lineItems =
        [\<lparr>i_description = snd (classify (toLowerCase m) (toLowerCase (JSON_stringify e ocrData))),
          i_quantity = Fin 1,
          i_unitPrice = toFixed2 (netAmountOf (hasVAT (toLowerCase (JSON_stringify e ocrData))) amount),
          i_total = toFixed2 (netAmountOf (hasVAT (toLowerCase (JSON_stringify e ocrData))) amount),
          i_vatRate = vatRateOf (hasVAT (toLowerCase (JSON_stringify e ocrData))),
          i_category = fst (classify (toLowerCase m) (toLowerCase (JSON_stringify e ocrData)))\<rparr>],
      vatBreakdown =
        \<lparr>netAmount = toFixed2 (netAmountOf (hasVAT (toLowerCase (JSON_stringify e ocrData))) amount),
         vatAmount = toFixed2 (vatAmountOf (hasVAT (toLowerCase (JSON_stringify e ocrData))) amount),
         grossAmount = toFixed2 amount,
         vatRate = vatRateOf (hasVAT (toLowerCase (JSON_stringify e ocrData)))\<rparr>,
      totalDebit = toFixed2 amount,
      totalCredit = toFixed2 amount\<rparr>)"
  using assms
  by (auto simp: createFallbackJournalEntry_def Let_def split: if_splits js.splits prod.splits)

lemma vatAmountOf_positive: "num_gt (vatAmountOf hv amount) (Fin 0) \<Longrightarrow> hv"
  by (cases hv) (simp_all add: vatAmountOf_def)

lemma ledgerEntries_eq:
  "ledgerEntries hv amount account descr =
       \<lparr>l_type = Debit, l_account = account,
         l_amount = toFixed2 (netAmountOf hv amount), l_description = descr\<rparr>
     # (if num_gt (vatAmountOf hv amount) (Fin 0)
        then [\<lparr>l_type = Debit, l_account = ''VAT Input Tax'',
               l_amount = toFixed2 (vatAmountOf hv amount), l_description = ''VAT 19%''\<rparr>]
        else [])
     @ [\<lparr>l_type = Credit, l_account = ''Cash/Bank Account'',
         l_amount = toFixed2 amount, l_description = ''Payment''\<rparr>]"
  using vatAmountOf_positive [of hv amount] by (auto simp: ledgerEntries_def)

subsection \<open>The VAT split\<close>

text \<open>
  C3. For every gross amount \<open>g\<close> (\<open>g \<ge> 0\<close> or not) and every lower-cased OCR text \<open>t\<close>: VAT is taken
  to be present exactly when \<open>t\<close> contains "vat", "tax" or "19%"; when present the net
  amount is \<open>g / (1 + 0.19)\<close>, the VAT amount is \<open>g\<close> minus the net amount and the rate is
  0.19; when absent they are \<open>g\<close>, 0 and 0; the two amounts add up to \<open>g\<close>, and after
  the rounding to two decimals of the output they add up to \<open>g\<close> within 0.01. The VAT
  breakdown of every entry that the fallback builder returns holds these amounts,
  rounded, with \<open>t\<close> the lower-cased serialized OCR data.
\<close>

theorem vat_policy:
  "(hasVAT t \<longleftrightarrow> str_includes t ''vat'' \<or> str_includes t ''tax'' \<or> str_includes t ''19%'')
   \<and> (hasVAT t \<longrightarrow>
         netAmountOf (hasVAT t) (Fin g) = Fin (g / (1 + 19 / 100))
       \<and> vatAmountOf (hasVAT t) (Fin g) = Fin (g - g / (1 + 19 / 100))
       \<and> vatRateOf (hasVAT t) = Fin (19 / 100))
   \<and> (\<not> hasVAT t \<longrightarrow>
         netAmountOf (hasVAT t) (Fin g) = Fin g
       \<and> vatAmountOf (hasVAT t) (Fin g) = Fin 0
       \<and> vatRateOf (hasVAT t) = Fin 0)
   \<and> num_add (netAmountOf (hasVAT t) (Fin g)) (vatAmountOf (hasVAT t) (Fin g)) = Fin g
   \<and> within001
        (num_add (toFixed2 (netAmountOf (hasVAT t) (Fin g))) (toFixed2 (vatAmountOf (hasVAT t) (Fin g))))
        (Fin g)
   \<and> (createFallbackJournalEntry e ocrData (Fin g) dt = Inr je
        \<and> t = toLowerCase (JSON_stringify e ocrData) \<longrightarrow>
         vatBreakdown je =
           \<lparr>netAmount = toFixed2 (netAmountOf (hasVAT t) (Fin g)),
            vatAmount = toFixed2 (vatAmountOf (hasVAT t) (Fin g)),
            grossAmount = toFixed2 (Fin g),
            vatRate = vatRateOf (hasVAT t)\<rparr>)"
proof -
  define n where "n = (if hasVAT t then g / (119 / 100) else g)"
  define v where "v = (if hasVAT t then g - n else 0)"
  have nv: "netAmountOf (hasVAT t) (Fin g) = Fin n"
      "vatAmountOf (hasVAT t) (Fin g) = Fin v" "n + v = g"
    by (simp_all add: netAmountOf_def vatAmountOf_def n_def v_def)
  obtain n' v' where r: "toFixed2 (Fin n) = Fin n'" "toFixed2 (Fin v) = Fin v'"
    using toFixed2_Fin [of n] toFixed2_Fin [of v] by blast
  have "\<bar>n' + v' - (n + v)\<bar> \<le> 1 / 100"
    using r by (rule rounded_split_within)
  then have w: "within001 (num_add (toFixed2 (Fin n)) (toFixed2 (Fin v))) (Fin g)"
    using r nv(3) by simp
  have b: "createFallbackJournalEntry e ocrData (Fin g) dt = Inr je
        \<and> t = toLowerCase (JSON_stringify e ocrData) \<longrightarrow>
         vatBreakdown je =
           \<lparr>netAmount = toFixed2 (netAmountOf (hasVAT t) (Fin g)),
            vatAmount = toFixed2 (vatAmountOf (hasVAT t) (Fin g)),
            grossAmount = toFixed2 (Fin g),
            vatRate = vatRateOf (hasVAT t)\<rparr>"
    using createFallback_Inr [of e ocrData "Fin g" dt je] by auto
  have p: "hasVAT t \<longleftrightarrow> str_includes t ''vat'' \<or> str_includes t ''tax'' \<or> str_includes t ''19%''"
    by (simp add: hasVAT_def)
  have y: "hasVAT t \<longrightarrow>
         netAmountOf (hasVAT t) (Fin g) = Fin (g / (1 + 19 / 100))
       \<and> vatAmountOf (hasVAT t) (Fin g) = Fin (g - g / (1 + 19 / 100))
       \<and> vatRateOf (hasVAT t) = Fin (19 / 100)"
    by (simp add: netAmountOf_def vatAmountOf_def vatRateOf_def)
  have z: "\<not> hasVAT t \<longrightarrow>
         netAmountOf (hasVAT t) (Fin g) = Fin g
       \<and> vatAmountOf (hasVAT t) (Fin g) = Fin 0
       \<and> vatRateOf (hasVAT t) = Fin 0"
    by (simp add: netAmountOf_def vatAmountOf_def vatRateOf_def)
  from p y z nv w b show ?thesis
    by simp
qed

theorem vat_policy_witness:
  "\<not> isl (createFallbackJournalEntry offline receiptB (Fin 119) ''15/03/2024'')
   \<and> hasVAT (toLowerCase (JSON_stringify offline receiptB))
   \<and> vatBreakdown (projr (createFallbackJournalEntry offline receiptB (Fin 119) ''15/03/2024''))
       = \<lparr>netAmount = Fin 100, vatAmount = Fin 19, grossAmount = Fin 119, vatRate = Fin (19 / 100)\<rparr>
   \<and> within001 (num_add (Fin 100) (Fin 19)) (Fin 119)"
proof -
  let ?t = "toLowerCase (JSON_stringify offline receiptB)"
  let ?r = "createFallbackJournalEntry offline receiptB (Fin 119) ''15/03/2024''"
  have a: "\<not> isl ?r" by code_simp
  then have b: "?r = Inr (projr ?r)" by simp
  have h: "hasVAT ?t" by code_simp
  have n: "toFixed2 (netAmountOf True (Fin 119)) = Fin 100" by code_simp
  have v: "toFixed2 (vatAmountOf True (Fin 119)) = Fin 19" by code_simp
  have g: "toFixed2 (Fin 119) = Fin 119" by code_simp
  have k: "vatRateOf True = Fin (19 / 100)" by code_simp
  from h have ht: "hasVAT ?t = True" by simp
  note T = vat_policy [of ?t 119 offline receiptB "''15/03/2024''" "projr ?r", unfolded ht]
  from T b
  have "vatBreakdown (projr ?r) =
      \<lparr>netAmount = toFixed2 (netAmountOf True (Fin 119)),
       vatAmount = toFixed2 (vatAmountOf True (Fin 119)),
       grossAmount = toFixed2 (Fin 119), vatRate = vatRateOf True\<rparr>"
    and "within001 (num_add (toFixed2 (netAmountOf True (Fin 119)))
       (toFixed2 (vatAmountOf True (Fin 119)))) (Fin 119)"
    by blast+
  then show ?thesis unfolding n v g k using a h by blast
qed

subsection \<open>The category classifier\<close>

lemma classify_refines: "classify m t = classify_spec m t"
  by (simp add: classify_def classify_spec_def categoryRules_def ruleMatches_def)

lemma distinct_accounts: "distinct (map (\<lambda>r. fst (snd r)) categoryRules)"
  by (simp add: categoryRules_def)

lemma first_rule_wins:
  assumes "i < length categoryRules" and "ruleMatches m t (categoryRules ! i)"
  shows "\<exists>k\<le>i. ruleMatches m t (categoryRules ! k)
           \<and> (\<forall>l<k. \<not> ruleMatches m t (categoryRules ! l))
           \<and> classify m t = snd (categoryRules ! k)"
proof -
  from assms have "categoryRules ! i \<in> set categoryRules"
    by simp
  with assms(2) have "find (ruleMatches m t) categoryRules \<noteq> None"
    unfolding find_None_iff by blast
  then obtain r where r: "find (ruleMatches m t) categoryRules = Some r"
    by auto
  then obtain k where k: "k < length categoryRules" "ruleMatches m t (categoryRules ! k)"
      "r = categoryRules ! k" "\<forall>l<k. \<not> ruleMatches m t (categoryRules ! l)"
    unfolding find_Some_iff by blast
  from k(4) assms(2) have "k \<le> i"
    by (meson not_le)
  moreover have "classify m t = snd (categoryRules ! k)"
    using r k(3) by (simp add: classify_refines classify_spec_def)
  ultimately show ?thesis
    using k by blast
qed

text \<open>
  C8. The classifier is the first-match evaluation of the ordered rule table. When two
  rules match, the account of the later one is not returned: the result is that of the
  earliest matching rule. A text with both "cafe" and "office" gets
  "Meals & Entertainment", not "Office Supplies"; a text that matches no rule gets the
  default account "General Expenses".
\<close>

theorem classify_first_match:
  "classify m t = classify_spec m t
   \<and> (\<forall>i j. i < j \<and> j < length categoryRules
          \<and> ruleMatches m t (categoryRules ! i) \<and> ruleMatches m t (categoryRules ! j)
        \<longrightarrow> fst (classify m t) \<noteq> fst (snd (categoryRules ! j))
          \<and> (\<exists>k\<le>i. ruleMatches m t (categoryRules ! k)
                \<and> (\<forall>l<k. \<not> ruleMatches m t (categoryRules ! l))
                \<and> classify m t = snd (categoryRules ! k)))
   \<and> (str_includes t ''cafe'' \<and> str_includes t ''office''
        \<longrightarrow> fst (classify m t) = ''Meals & Entertainment''
          \<and> fst (classify m t) \<noteq> ''Office Supplies'')
   \<and> ((\<forall>r \<in> set categoryRules. \<not> ruleMatches m t r)
        \<longrightarrow> fst (classify m t) = ''General Expenses'')"
proof -
  have order: "fst (classify m t) \<noteq> fst (snd (categoryRules ! j))
      \<and> (\<exists>k\<le>i. ruleMatches m t (categoryRules ! k)
            \<and> (\<forall>l<k. \<not> ruleMatches m t (categoryRules ! l))
            \<and> classify m t = snd (categoryRules ! k))"
    if "i < j" "j < length categoryRules" "ruleMatches m t (categoryRules ! i)" for i j
  proof -
    from that have i: "i < length categoryRules" by simp
    from first_rule_wins [OF i that(3)] obtain k where k: "k \<le> i"
        "ruleMatches m t (categoryRules ! k)" "\<forall>l<k. \<not> ruleMatches m t (categoryRules ! l)"
        "classify m t = snd (categoryRules ! k)"
      by blast
    have "k < length categoryRules" "k \<noteq> j"
      using k(1) that(1,2) by simp_all
    then have "map (\<lambda>r. fst (snd r)) categoryRules ! k \<noteq> map (\<lambda>r. fst (snd r)) categoryRules ! j"
      using distinct_accounts that(2) by (simp add: nth_eq_iff_index_eq del: nth_map)
    then have "fst (snd (categoryRules ! k)) \<noteq> fst (snd (categoryRules ! j))"
      using \<open>k < length categoryRules\<close> that(2) by simp
    with k show ?thesis by auto
  qed
  have cafe: "fst (classify m t) = ''Meals & Entertainment''
      \<and> fst (classify m t) \<noteq> ''Office Supplies''"
    if "str_includes t ''cafe''"
    using that by (simp add: classify_def)
  have none: "fst (classify m t) = ''General Expenses''"
    if "\<forall>r \<in> set categoryRules. \<not> ruleMatches m t r"
  proof -
    from that have "find (ruleMatches m t) categoryRules = None"
      by (simp add: find_None_iff)
    then show ?thesis
      by (simp add: classify_refines classify_spec_def)
  qed
  from classify_refines order cafe none show ?thesis
    by blast
qed

theorem classify_first_match_witness:
  "(0::nat) < 2 \<and> 2 < length categoryRules
   \<and> ruleMatches ''office park cafe'' cafeOfficeText (categoryRules ! 0)
   \<and> ruleMatches ''office park cafe'' cafeOfficeText (categoryRules ! 2)
   \<and> str_includes cafeOfficeText ''cafe'' \<and> str_includes cafeOfficeText ''office''
   \<and> classify ''office park cafe'' cafeOfficeText = (''Meals & Entertainment'', ''Restaurant/Food expense'')
   \<and> fst (classify ''office park cafe'' cafeOfficeText) \<noteq> ''Office Supplies''
   \<and> find (ruleMatches ''acme ltd'' ''{\"establishment\":\"acme ltd\"}'') categoryRules = None
   \<and> fst (classify ''acme ltd'' ''{\"establishment\":\"acme ltd\"}'') = ''General Expenses''"
proof -
  let ?m = "''office park cafe''"
  have a: "(0::nat) < 2 \<and> 2 < length categoryRules
      \<and> ruleMatches ?m cafeOfficeText (categoryRules ! 0)
      \<and> ruleMatches ?m cafeOfficeText (categoryRules ! 2)"
    by code_simp
  have b: "str_includes cafeOfficeText ''cafe'' \<and> str_includes cafeOfficeText ''office''"
    by code_simp
  have n: "find (ruleMatches ''acme ltd'' ''{\"establishment\":\"acme ltd\"}'') categoryRules = None"
    by code_simp
  then have c: "\<forall>r \<in> set categoryRules. \<not> ruleMatches ''acme ltd'' ''{\"establishment\":\"acme ltd\"}'' r"
    unfolding find_None_iff by blast
  have s: "classify_spec ?m cafeOfficeText = (''Meals & Entertainment'', ''Restaurant/Food expense'')"
    by code_simp
  note T = classify_first_match [of ?m cafeOfficeText]
  note U = classify_first_match [of "''acme ltd''" "''{\"establishment\":\"acme ltd\"}''"]
  from T s have "classify ?m cafeOfficeText = (''Meals & Entertainment'', ''Restaurant/Food expense'')"
    by simp
  moreover from T b have "fst (classify ?m cafeOfficeText) \<noteq> ''Office Supplies''"
    by blast
  moreover from U c have "fst (classify ''acme ltd'' ''{\"establishment\":\"acme ltd\"}'') = ''General Expenses''"
    by blast
  ultimately show ?thesis
    using a b n by blast
qed

subsection \<open>The ledger\<close>

text \<open>
  C4. The ledger of the fallback builder is, in this order: one debit line for the
  rounded net amount on the classified account; one debit line on "VAT Input Tax" for
  the rounded VAT amount, present exactly when the VAT amount is greater than 0; one
  credit line for the rounded gross amount on "Cash/Bank Account". Every entry that the
  builder returns has this ledger, with the account and the description of the
  classifier, and the builder returns one for every OCR object whose merchant is a text.
\<close>

theorem ledger_shape:
  "ledgerEntries hv amount account descr =
       \<lparr>l_type = Debit, l_account = account,
         l_amount = toFixed2 (netAmountOf hv amount), l_description = descr\<rparr>
     # (if num_gt (vatAmountOf hv amount) (Fin 0)
        then [\<lparr>l_type = Debit, l_account = ''VAT Input Tax'',
               l_amount = toFixed2 (vatAmountOf hv amount), l_description = ''VAT 19%''\<rparr>]
        else [])
     @ [\<lparr>l_type = Credit, l_account = ''Cash/Bank Account'',
         l_amount = toFixed2 amount, l_description = ''Payment''\<rparr>]
   \<and> length (ledgerEntries hv amount account descr)
       = (if num_gt (vatAmountOf hv amount) (Fin 0) then 3 else 2)
   \<and> filter (\<lambda>l. l_type l = Credit) (ledgerEntries hv amount account descr)
       = [\<lparr>l_type = Credit, l_account = ''Cash/Bank Account'',
           l_amount = toFixed2 amount, l_description = ''Payment''\<rparr>]
   \<and> (createFallbackJournalEntry e ocrData amount dt = Inr je \<longrightarrow>
        entries je =
          ledgerEntries (hasVAT (toLowerCase (JSON_stringify e ocrData))) amount
            (fst (classify (toLowerCase (merchant je)) (toLowerCase (JSON_stringify e ocrData))))
            (snd (classify (toLowerCase (merchant je)) (toLowerCase (JSON_stringify e ocrData)))))
   \<and> (\<not> nullish ocrData \<and> isString (merchantOf e ocrData) \<longrightarrow>
        (\<exists>je'. createFallbackJournalEntry e ocrData amount dt = Inr je'))"
proof -
  note shape = ledgerEntries_eq [of hv amount account descr]
  have len: "length (ledgerEntries hv amount account descr)
       = (if num_gt (vatAmountOf hv amount) (Fin 0) then 3 else 2)"
    unfolding shape by simp
  have credit: "filter (\<lambda>l. l_type l = Credit) (ledgerEntries hv amount account descr)
       = [\<lparr>l_type = Credit, l_account = ''Cash/Bank Account'',
           l_amount = toFixed2 amount, l_description = ''Payment''\<rparr>]"
    unfolding shape by simp
  have built: "entries je =
          ledgerEntries (hasVAT (toLowerCase (JSON_stringify e ocrData))) amount
            (fst (classify (toLowerCase (merchant je)) (toLowerCase (JSON_stringify e ocrData))))
            (snd (classify (toLowerCase (merchant je)) (toLowerCase (JSON_stringify e ocrData))))"
    if "createFallbackJournalEntry e ocrData amount dt = Inr je"
    using createFallback_Inr [OF that] by auto
  have total: "\<exists>je'. createFallbackJournalEntry e ocrData amount dt = Inr je'"
    if "\<not> nullish ocrData" "isString (merchantOf e ocrData)"
    using that
    by (cases "merchantOf e ocrData")
      (simp_all add: createFallbackJournalEntry_def Let_def split: prod.splits)
  from shape len credit built total show ?thesis
    by blast
qed

theorem ledger_shape_witness:
  "createFallbackJournalEntry offline receiptB (Fin 119) ''15/03/2024''
     = Inr (projr (createFallbackJournalEntry offline receiptB (Fin 119) ''15/03/2024''))
   \<and> entries (projr (createFallbackJournalEntry offline receiptB (Fin 119) ''15/03/2024''))
     = [\<lparr>l_type = Debit, l_account = ''Office Supplies'', l_amount = Fin 100,
          l_description = ''Office supplies''\<rparr>,
        \<lparr>l_type = Debit, l_account = ''VAT Input Tax'', l_amount = Fin 19,
          l_description = ''VAT 19%''\<rparr>,
        \<lparr>l_type = Credit, l_account = ''Cash/Bank Account'', l_amount = Fin 119,
          l_description = ''Payment''\<rparr>]
   \<and> \<not> nullish receiptA \<and> isString (merchantOf offline receiptA)
   \<and> entries (projr (createFallbackJournalEntry offline receiptA (Fin (51 / 2)) ''02/11/2026''))
     = [\<lparr>l_type = Debit, l_account = ''General Expenses'', l_amount = Fin (51 / 2),
          l_description = ''Expense Transaction (OCR processed)''\<rparr>,
        \<lparr>l_type = Credit, l_account = ''Cash/Bank Account'', l_amount = Fin (51 / 2),
          l_description = ''Payment''\<rparr>]"
proof -
  let ?b = "createFallbackJournalEntry offline receiptB (Fin 119) ''15/03/2024''"
  let ?a = "createFallbackJournalEntry offline receiptA (Fin (51 / 2)) ''02/11/2026''"
  let ?tb = "toLowerCase (JSON_stringify offline receiptB)"
  let ?ta = "toLowerCase (JSON_stringify offline receiptA)"
  have ok: "\<not> nullish receiptA \<and> isString (merchantOf offline receiptA)"
    and okb: "\<not> nullish receiptB \<and> isString (merchantOf offline receiptB)"
    by code_simp+
  from ledger_shape [where e = offline and ocrData = receiptB and amount = "Fin 119" and dt = "''15/03/2024''"] okb
  have "\<exists>je'. ?b = Inr je'"
    by blast
  then have b: "?b = Inr (projr ?b)"
    by auto
  from ledger_shape [where e = offline and ocrData = receiptA and amount = "Fin (51 / 2)" and dt = "''02/11/2026''"] ok
  have "\<exists>je'. ?a = Inr je'"
    by blast
  then have a: "?a = Inr (projr ?a)"
    by auto
  from ledger_shape [where e = offline and ocrData = receiptB and amount = "Fin 119" and dt = "''15/03/2024''" and je = "projr ?b"] b
  have eb: "entries (projr ?b) = ledgerEntries (hasVAT ?tb) (Fin 119)
      (fst (classify (toLowerCase (merchant (projr ?b))) ?tb))
      (snd (classify (toLowerCase (merchant (projr ?b))) ?tb))"
    by blast
  from ledger_shape [where e = offline and ocrData = receiptA and amount = "Fin (51 / 2)" and dt = "''02/11/2026''" and je = "projr ?a"] a
  have ea: "entries (projr ?a) = ledgerEntries (hasVAT ?ta) (Fin (51 / 2))
      (fst (classify (toLowerCase (merchant (projr ?a))) ?ta))
      (snd (classify (toLowerCase (merchant (projr ?a))) ?ta))"
    by blast
  have vb: "ledgerEntries (hasVAT ?tb) (Fin 119)
      (fst (classify (toLowerCase (merchant (projr ?b))) ?tb))
      (snd (classify (toLowerCase (merchant (projr ?b))) ?tb))
     = [\<lparr>l_type = Debit, l_account = ''Office Supplies'', l_amount = Fin 100,
          l_description = ''Office supplies''\<rparr>,
        \<lparr>l_type = Debit, l_account = ''VAT Input Tax'', l_amount = Fin 19,
          l_description = ''VAT 19%''\<rparr>,
        \<lparr>l_type = Credit, l_account = ''Cash/Bank Account'', l_amount = Fin 119,
          l_description = ''Payment''\<rparr>]"
    by code_simp
  have va: "ledgerEntries (hasVAT ?ta) (Fin (51 / 2))
      (fst (classify (toLowerCase (merchant (projr ?a))) ?ta))
      (snd (classify (toLowerCase (merchant (projr ?a))) ?ta))
     = [\<lparr>l_type = Debit, l_account = ''General Expenses'', l_amount = Fin (51 / 2),
          l_description = ''Expense Transaction (OCR processed)''\<rparr>,
        \<lparr>l_type = Credit, l_account = ''Cash/Bank Account'', l_amount = Fin (51 / 2),
          l_description = ''Payment''\<rparr>]"
    by code_simp
  from b ok eb ea show ?thesis
    unfolding vb va by blast
qed

subsection \<open>The balance of the ledger\<close>

text \<open>
  C5. The debit lines of a built entry are meant to add up to its totals. The net and the
  VAT amount are rounded each on its own: for a total of 10.004 with VAT the debit lines
  are 8.41 and 1.60, one cent more than the totals and the credit line of 10.00. For a
  refund of -119.00 with VAT the VAT line is left out (the VAT amount is not positive),
  and the single debit line of -100.00 stands against totals of -119.00.
\<close>

theorem debit_lines_miss_the_totals:
  "extractAmountFromOCR offline receiptSubCent = Fin (10004 / 1000)
   \<and> map_sum id balanceSheet
        (createFallbackJournalEntry offline receiptSubCent (Fin (10004 / 1000)) ''02/11/2026'')
       = Inr (Fin (1001 / 100), Fin 10, Fin 10, Fin 10, Fin 10)
   \<and> map_sum id (\<lambda>je. map l_amount (entries je))
        (createFallbackJournalEntry offline receiptSubCent (Fin (10004 / 1000)) ''02/11/2026'')
       = Inr [Fin (841 / 100), Fin (160 / 100), Fin 10]
   \<and> extractAmountFromOCR offline receiptRefund = Fin (- 119)
   \<and> map_sum id balanceSheet
        (createFallbackJournalEntry offline receiptRefund (Fin (- 119)) ''02/11/2026'')
       = Inr (Fin (- 100), Fin (- 119), Fin (- 119), Fin (- 119), Fin (- 119))"
  by code_simp

lemma debit_sum_of_cents:
  fixes c :: int
  assumes "0 \<le> c" and "of_int c / 100 < (10 :: rat) ^ 21"
  shows "sumByType Debit (ledgerEntries hv (Fin (of_int c / 100)) account descr)
    = Fin (of_int c / 100)"
proof (cases "hv \<and> 0 < c")
  case False
  then have "hv \<longrightarrow> c = 0"
    using assms(1) by auto
  then have n: "netAmountOf hv (Fin (of_int c / 100)) = Fin (of_int c / 100)"
    and v: "vatAmountOf hv (Fin (of_int c / 100)) = Fin 0"
    by (auto simp: netAmountOf_def vatAmountOf_def)
  show ?thesis
    unfolding ledgerEntries_eq n v toFixed2_cents [OF assms]
    by (simp add: sumByType_def)
next
  case True
  define a :: rat where "a = of_int c / 100"
  define x :: rat where "x = of_int c / 119"
  define y :: rat where "y = of_int c * 19 / 11900"
  from True have c: "0 < c" and hv: "hv" by simp_all
  have n: "netAmountOf hv (Fin a) = Fin x"
    and v: "vatAmountOf hv (Fin a) = Fin y"
    using hv by (simp_all add: netAmountOf_def vatAmountOf_def a_def x_def y_def)
  have pos: "0 < x" "0 < y"
    using c by (simp_all add: x_def y_def)
  have "x \<le> a" "y \<le> a"
    using c by (simp_all add: x_def y_def a_def)
  with assms(2) have small: "x < 10 ^ 21" "y < 10 ^ 21"
    by (simp_all add: a_def)
  have x100: "x * 100 + 1 / 2 = of_int c / 119 * 100 + 1 / 2"
    and y100: "y * 100 + 1 / 2 = of_int c * 19 / 119 + 1 / 2"
    by (simp_all add: x_def y_def)
  define nn where "nn = \<lfloor>(of_int c / 119 * 100 + 1 / 2 :: rat)\<rfloor>"
  define vv where "vv = \<lfloor>(of_int c * 19 / 119 + 1 / 2 :: rat)\<rfloor>"
  have rx: "toFixed2 (Fin x) = Fin (of_int nn / 100)"
    unfolding toFixed2_positive [OF pos(1) small(1)] x100 nn_def ..
  have ry: "toFixed2 (Fin y) = Fin (of_int vv / 100)"
    unfolding toFixed2_positive [OF pos(2) small(2)] y100 vv_def ..
  have "nn + vv = c"
    unfolding nn_def vv_def by (rule split_of_cents)
  then have "(of_int nn / 100 + of_int vv / 100 :: rat) = of_int c / 100"
    by (metis add_divide_distrib of_int_add)
  then have "sumByType Debit (ledgerEntries hv (Fin a) account descr) = Fin (of_int c / 100)"
    unfolding ledgerEntries_eq n v rx ry using pos(2)
    by (simp add: sumByType_def)
  then show ?thesis
    unfolding a_def .
qed

lemma balanceSheet_of_cents:
  fixes c :: int
  assumes "0 \<le> c" and "of_int c / 100 < (10 :: rat) ^ 21"
    and "createFallbackJournalEntry e ocrData (Fin (of_int c / 100)) dt = Inr je"
  shows "balanceSheet je =
    (Fin (of_int c / 100), Fin (of_int c / 100), Fin (of_int c / 100),
     Fin (of_int c / 100), Fin (of_int c / 100))"
proof -
  from createFallback_Inr [OF assms(3)] obtain m where
    je: "entries je = ledgerEntries (hasVAT (toLowerCase (JSON_stringify e ocrData)))
        (Fin (of_int c / 100))
        (fst (classify (toLowerCase m) (toLowerCase (JSON_stringify e ocrData))))
        (snd (classify (toLowerCase m) (toLowerCase (JSON_stringify e ocrData))))"
      "totalDebit je = toFixed2 (Fin (of_int c / 100))"
      "totalCredit je = toFixed2 (Fin (of_int c / 100))"
      "grossAmount (vatBreakdown je) = toFixed2 (Fin (of_int c / 100))"
    by auto
  have credit: "sumByType Credit (ledgerEntries hv (Fin (of_int c / 100)) account descr)
      = Fin (of_int c / 100)" for hv account descr
    unfolding ledgerEntries_eq toFixed2_cents [OF assms(1,2)]
    by (simp add: sumByType_def)
  show ?thesis
    unfolding balanceSheet_def je toFixed2_cents [OF assms(1,2)]
      debit_sum_of_cents [OF assms(1,2)] credit ..
qed

text \<open>
  For an amount of whole cents that is not negative, the entry of the fallback builder
  balances exactly: the debit lines and the credit line add up to the totals, which are
  the amount and the gross amount of the VAT breakdown.
\<close>

theorem whole_cents_balance:
  fixes c :: int
  shows "0 \<le> c \<Longrightarrow> of_int c / 100 < (10 :: rat) ^ 21 \<Longrightarrow>
    createFallbackJournalEntry e ocrData (Fin (of_int c / 100)) dt = Inr je \<Longrightarrow>
    balanceSheet je =
      (Fin (of_int c / 100), Fin (of_int c / 100), Fin (of_int c / 100),
       Fin (of_int c / 100), Fin (of_int c / 100))"
  by (rule balanceSheet_of_cents)

theorem whole_cents_balance_witness:
  "(0::int) \<le> 11900 \<and> of_int (11900::int) / 100 < (10 :: rat) ^ 21
   \<and> createFallbackJournalEntry offline receiptB (Fin (of_int (11900::int) / 100)) ''15/03/2024''
       = Inr (projr (createFallbackJournalEntry offline receiptB (Fin (of_int (11900::int) / 100)) ''15/03/2024''))
   \<and> balanceSheet (projr (createFallbackJournalEntry offline receiptB (Fin (of_int (11900::int) / 100)) ''15/03/2024''))
       = (Fin 119, Fin 119, Fin 119, Fin 119, Fin 119)"
proof -
  let ?r = "createFallbackJournalEntry offline receiptB (Fin (of_int (11900::int) / 100)) ''15/03/2024''"
  have a: "(0::int) \<le> 11900" and b: "of_int (11900::int) / 100 < (10 :: rat) ^ 21"
    by simp_all
  have "\<not> isl ?r"
    by code_simp
  then have r: "?r = Inr (projr ?r)"
    by simp
  have v: "(of_int (11900::int) / 100 :: rat) = 119"
    by simp
  from whole_cents_balance [OF a b r] have "balanceSheet (projr ?r) =
      (Fin (of_int (11900::int) / 100), Fin (of_int (11900::int) / 100),
       Fin (of_int (11900::int) / 100), Fin (of_int (11900::int) / 100),
       Fin (of_int (11900::int) / 100))" .
  then have "balanceSheet (projr ?r) = (Fin 119, Fin 119, Fin 119, Fin 119, Fin 119)"
    unfolding v by simp
  with a b r show ?thesis
    by blast
qed

section \<open>Properties of the amount extractor\<close>

text \<open>
  C7. A receipt without any digit is meant to get the default amount 10.00. The scan
  for amounts takes the comma between two fields of the serialized receipt for a token,
  \<^verbatim>\<open>parseFloat\<close> of it is \<^verbatim>\<open>NaN\<close>, and \<^verbatim>\<open>NaN\<close> is the amount returned and the
  total of the entry built from it; \<^verbatim>\<open>NaN\<close> is not equal to itself. A receipt of one
  field has no comma and gets the default.
\<close>

theorem comma_token_gives_nan:
  "amountTokens (toLowerCase (JSON_stringify offline receiptNoDigits)) = ['','']
   \<and> extractAmountFromOCR offline receiptNoDigits = NaN
   \<and> map_sum id (\<lambda>je. (totalDebit je, totalCredit je, totalsBalanced (Built je)))
        (createFallbackJournalEntry offline receiptNoDigits NaN ''02/11/2026'')
       = Inr (NaN, NaN, False)
   \<and> extractAmountFromOCR offline receiptOneField = Fin 10"
  by code_simp

lemma amountTokens_none:
  "(\<And>c. c \<in> set s \<Longrightarrow> \<not> isDigitOrComma c) \<Longrightarrow> amountTokens s = []"
  by (induction s) simp_all

lemma lowerChar_not_digit_or_comma:
  assumes "\<not> isDigitOrComma c"
  shows "\<not> isDigitOrComma (lowerChar c)"
proof (cases "isUpper c")
  case False
  with assms show ?thesis by (simp add: lowerChar_def)
next
  case True
  define d where "d = char_of ((of_char c :: nat) + 32)"
  from True have "97 \<le> (of_char c :: nat) + 32" and "(of_char c :: nat) + 32 \<le> 122"
    by (simp_all add: isUpper_def Let_def)
  then have od: "97 \<le> (of_char d :: nat)" "(of_char d :: nat) \<le> 122"
    by (simp_all add: d_def)
  then have "\<not> isDigit d"
    by (simp add: isDigit_def Let_def)
  moreover have "d \<noteq> CHR '',''"
  proof
    assume "d = CHR '',''"
    then have "(of_char d :: nat) = 44" by simp
    with od show False by simp
  qed
  ultimately show ?thesis
    using True by (simp add: lowerChar_def isDigitOrComma_def d_def)
qed

lemma takeWhile_isDigit_none:
  "(\<And>c. c \<in> set t \<Longrightarrow> \<not> isDigit c) \<Longrightarrow> takeWhile isDigit t = []"
  by (cases t) simp_all

lemma parseFloat_no_digit:
  assumes "\<And>c. c \<in> set s \<Longrightarrow> \<not> isDigit c"
  shows "parseFloat s = NaN"
proof (cases s)
  case Nil
  then show ?thesis by (simp add: parseFloat_def)
next
  case (Cons c t)
  with assms have c: "\<not> isDigit c" and t: "takeWhile isDigit t = []"
    by (simp_all add: takeWhile_isDigit_none)
  show ?thesis
    unfolding Cons parseFloat_def using c t by simp
qed

text \<open>
  When the serialized OCR data holds no digit and no comma, and neither amount field
  is a number, the extractor returns the default 10, and every fallback entry built
  from it balances on 10.00.
\<close>

theorem default_amount:
  "(\<forall>c \<in> set (JSON_stringify e ocrData). \<not> isDigit c \<and> c \<noteq> CHR '','') \<Longrightarrow>
   \<not> isNumber (field ocrData ''total'') \<Longrightarrow>
   \<not> isNumber (field ocrData ''totalAmount'') \<Longrightarrow>
   (\<forall>c \<in> set (strOf (field ocrData ''total'')). \<not> isDigit c) \<Longrightarrow>
     extractAmountFromOCR e ocrData = Fin 10
   \<and> (createFallbackJournalEntry e ocrData (extractAmountFromOCR e ocrData) dt = Inr je
        \<longrightarrow> balanceSheet je = (Fin 10, Fin 10, Fin 10, Fin 10, Fin 10))"
proof -
  assume ser: "\<forall>c \<in> set (JSON_stringify e ocrData). \<not> isDigit c \<and> c \<noteq> CHR '',''"
    and t: "\<not> isNumber (field ocrData ''total'')"
    and ta: "\<not> isNumber (field ocrData ''totalAmount'')"
    and st: "\<forall>c \<in> set (strOf (field ocrData ''total'')). \<not> isDigit c"
  have "\<not> isDigitOrComma c" if "c \<in> set (toLowerCase (JSON_stringify e ocrData))" for c
  proof -
    from that obtain d where "d \<in> set (JSON_stringify e ocrData)" "c = lowerChar d"
      by (auto simp: toLowerCase_def)
    with ser show ?thesis
      using lowerChar_not_digit_or_comma [of d] by (simp add: isDigitOrComma_def)
  qed
  then have tok: "amountTokens (toLowerCase (JSON_stringify e ocrData)) = []"
    by (rule amountTokens_none)
  have "parseFloat (filter (\<lambda>c. isDigit c \<or> c = CHR ''.'') (strOf (field ocrData ''total''))) = NaN"
    using st by (intro parseFloat_no_digit) auto
  with t ta tok have a: "extractAmountFromOCR e ocrData = Fin 10"
    by (simp add: extractAmountFromOCR_def tryExtractAmount_def Let_def)
  have b: "balanceSheet je = (Fin 10, Fin 10, Fin 10, Fin 10, Fin 10)"
    if "createFallbackJournalEntry e ocrData (extractAmountFromOCR e ocrData) dt = Inr je"
  proof -
    have v: "(of_int (1000::int) / 100 :: rat) = 10"
      by simp
    from that a have "createFallbackJournalEntry e ocrData (Fin (of_int (1000::int) / 100)) dt = Inr je"
      unfolding v by simp
    from balanceSheet_of_cents [OF _ _ this] show ?thesis
      unfolding v by simp
  qed
  from a b show ?thesis
    by blast
qed

theorem default_amount_witness:
  "list_all (\<lambda>c. \<not> isDigit c \<and> c \<noteq> CHR '','') (JSON_stringify offline receiptOneField)
   \<and> \<not> isNumber (field receiptOneField ''total'')
   \<and> \<not> isNumber (field receiptOneField ''totalAmount'')
   \<and> strOf (field receiptOneField ''total'') = []
   \<and> extractAmountFromOCR offline receiptOneField = Fin 10
   \<and> createFallbackJournalEntry offline receiptOneField (extractAmountFromOCR offline receiptOneField) ''02/11/2026''
       = Inr (projr (createFallbackJournalEntry offline receiptOneField (extractAmountFromOCR offline receiptOneField) ''02/11/2026''))
   \<and> balanceSheet (projr (createFallbackJournalEntry offline receiptOneField (extractAmountFromOCR offline receiptOneField) ''02/11/2026''))
       = (Fin 10, Fin 10, Fin 10, Fin 10, Fin 10)"
proof -
  let ?r = "createFallbackJournalEntry offline receiptOneField (extractAmountFromOCR offline receiptOneField) ''02/11/2026''"
  have s: "list_all (\<lambda>c. \<not> isDigit c \<and> c \<noteq> CHR '','') (JSON_stringify offline receiptOneField)"
    and t: "\<not> isNumber (field receiptOneField ''total'')"
    and ta: "\<not> isNumber (field receiptOneField ''totalAmount'')"
    and st: "strOf (field receiptOneField ''total'') = []"
    by code_simp+
  from s have s': "\<forall>c \<in> set (JSON_stringify offline receiptOneField). \<not> isDigit c \<and> c \<noteq> CHR '',''"
    unfolding list_all_iff .
  from st have st': "\<forall>c \<in> set (strOf (field receiptOneField ''total'')). \<not> isDigit c"
    by simp
  have "\<not> isl ?r"
    by code_simp
  then have r: "?r = Inr (projr ?r)"
    by simp
  from default_amount [OF s' t ta st', of "''02/11/2026''" "projr ?r"] r
  have "extractAmountFromOCR offline receiptOneField = Fin 10
      \<and> balanceSheet (projr ?r) = (Fin 10, Fin 10, Fin 10, Fin 10, Fin 10)"
    by blast
  with s t ta st r show ?thesis
    by blast
qed

lemma foldl_max2_NaN: "foldl max2 NaN ns = NaN"
  by (induction ns) simp_all

lemma foldl_max2_mem: "NaN \<in> set ns \<Longrightarrow> foldl max2 n ns = NaN"
proof (induction ns arbitrary: n)
  case Nil
  then show ?case by simp
next
  case (Cons a ns)
  show ?case
  proof (cases "a = NaN")
    case True
    then have "max2 n a = NaN" by (cases n) simp_all
    then show ?thesis by (simp add: foldl_max2_NaN)
  next
    case False
    with Cons show ?thesis by simp
  qed
qed

lemma Math_max_NaN: "NaN \<in> set ns \<Longrightarrow> Math_max ns = NaN"
  by (cases ns) (auto simp: foldl_max2_NaN foldl_max2_mem)

text \<open>
  Whenever the scan of the serialized OCR data is reached (neither amount field is a
  truthy number, and the total is no text with a number in it) and one of its tokens
  holds commas only, as the comma between two fields does, the extractor returns
  \<^verbatim>\<open>NaN\<close>, whatever numbers the other tokens are.
\<close>

theorem scan_poisoned_by_comma:
  "\<not> nullish ocrData \<Longrightarrow>
   \<not> (truthy (field ocrData ''total'') \<and> isNumber (field ocrData ''total'')) \<Longrightarrow>
   \<not> (truthy (field ocrData ''totalAmount'') \<and> isNumber (field ocrData ''totalAmount'')) \<Longrightarrow>
   \<not> isString (field ocrData ''total'') \<Longrightarrow>
   t \<in> set (amountTokens (toLowerCase (JSON_stringify e ocrData))) \<Longrightarrow>
   filter (\<lambda>c. c \<noteq> CHR '','') t = [] \<Longrightarrow>
   extractAmountFromOCR e ocrData = NaN"
proof -
  assume n: "\<not> nullish ocrData"
    and a: "\<not> (truthy (field ocrData ''total'') \<and> isNumber (field ocrData ''total''))"
    and b: "\<not> (truthy (field ocrData ''totalAmount'') \<and> isNumber (field ocrData ''totalAmount''))"
    and s: "\<not> isString (field ocrData ''total'')"
    and t: "t \<in> set (amountTokens (toLowerCase (JSON_stringify e ocrData)))"
    and c: "filter (\<lambda>c. c \<noteq> CHR '','') t = []"
  let ?toks = "amountTokens (toLowerCase (JSON_stringify e ocrData))"
  have "parseFloat (filter (\<lambda>c. c \<noteq> CHR '','') t) = NaN"
    unfolding c by (simp add: parseFloat_def)
  with t have "NaN \<in> set (map (\<lambda>a. parseFloat (filter (\<lambda>c. c \<noteq> CHR '','') a)) ?toks)"
    by force
  then have m: "Math_max (map (\<lambda>a. parseFloat (filter (\<lambda>c. c \<noteq> CHR '','') a)) ?toks) = NaN"
    by (rule Math_max_NaN)
  from t have "?toks \<noteq> []"
    by auto
  with n a b s m show ?thesis
    by (auto simp: extractAmountFromOCR_def tryExtractAmount_def Let_def)
qed

theorem scan_poisoned_by_comma_witness:
  "\<not> nullish receiptAmountField
   \<and> field receiptAmountField ''total'' = Undefined
   \<and> field receiptAmountField ''totalAmount'' = Undefined
   \<and> amountTokens (toLowerCase (JSON_stringify offline receiptAmountField)) = [''25.5'', '','']
   \<and> extractAmountFromOCR offline receiptAmountField = NaN"
proof -
  have n: "\<not> nullish receiptAmountField"
    and t: "field receiptAmountField ''total'' = Undefined"
    and ta: "field receiptAmountField ''totalAmount'' = Undefined"
    and k: "amountTokens (toLowerCase (JSON_stringify offline receiptAmountField)) = [''25.5'', '','']"
    by code_simp+
  have m: "'','' \<in> set (amountTokens (toLowerCase (JSON_stringify offline receiptAmountField)))"
    unfolding k by simp
  have "extractAmountFromOCR offline receiptAmountField = NaN"
    by (rule scan_poisoned_by_comma [OF n _ _ _ m]) (simp_all add: t ta)
  with n t ta k show ?thesis
    by blast
qed

section \<open>Properties of the generative path and the orchestrator\<close>

subsection \<open>Parsing the reply of the text model\<close>

lemma parseResponse_stage1:
  "JSON_parse e r = Some j \<Longrightarrow> parseResponse e r = Inr j"
  by (simp add: parseResponse_def)

lemma parseResponse_stage2:
  "JSON_parse e r = None \<Longrightarrow> JSON_parse e (cleanResponse r) = Some j \<Longrightarrow>
   parseResponse e r = Inr j"
  by (simp add: parseResponse_def)

lemma parseResponse_stage3:
  "JSON_parse e r = None \<Longrightarrow> JSON_parse e (cleanResponse r) = None \<Longrightarrow>
   braceSpan (cleanResponse r) = Some m \<Longrightarrow> JSON_parse e m = Some j \<Longrightarrow>
   parseResponse e r = Inr j"
  by (simp add: parseResponse_def)

lemma parseResponse_fails:
  "(\<exists>err. parseResponse e r = Inl err) \<longleftrightarrow>
     JSON_parse e r = None \<and> JSON_parse e (cleanResponse r) = None
     \<and> (\<forall>m. braceSpan (cleanResponse r) = Some m \<longrightarrow> JSON_parse e m = None)"
  by (auto simp: parseResponse_def Let_def split: option.splits)

lemma dropWhileEnd_decomp:
  "\<exists>q. xs = dropWhileEnd P xs @ q \<and> (\<forall>x \<in> set q. P x)
     \<and> (dropWhileEnd P xs \<noteq> [] \<longrightarrow> \<not> P (last (dropWhileEnd P xs)))"
proof -
  have "rev xs = takeWhile P (rev xs) @ dropWhile P (rev xs)"
    by simp
  then have "xs = rev (dropWhile P (rev xs)) @ rev (takeWhile P (rev xs))"
    by (metis rev_append rev_rev_ident)
  moreover have "\<forall>x \<in> set (rev (takeWhile P (rev xs))). P x"
    by (auto dest: set_takeWhileD)
  moreover have "dropWhile P (rev xs) \<noteq> [] \<longrightarrow> \<not> P (last (rev (dropWhile P (rev xs))))"
    by (simp add: last_rev hd_dropWhile)
  ultimately show ?thesis
    unfolding dropWhileEnd_def by (metis rev_is_Nil_conv)
qed

lemma braceSpan_outermost:
  assumes "braceSpan s = Some m"
  shows "\<exists>p q. s = p @ m @ q \<and> CHR ''{'' \<notin> set p \<and> CHR ''}'' \<notin> set q
           \<and> hd m = CHR ''{'' \<and> last m = CHR ''}''"
proof -
  define p where "p = takeWhile (\<lambda>c. c \<noteq> CHR ''{'') s"
  define t where "t = dropWhile (\<lambda>c. c \<noteq> CHR ''{'') s"
  from assms have m: "m = dropWhileEnd (\<lambda>c. c \<noteq> CHR ''}'') t" "m \<noteq> []"
    by (auto simp: braceSpan_def Let_def t_def split: if_splits)
  from dropWhileEnd_decomp [of t "\<lambda>c. c \<noteq> CHR ''}''"] m
  obtain q where q: "t = m @ q" "\<forall>x \<in> set q. x \<noteq> CHR ''}''" "last m = CHR ''}''"
    by auto
  have s: "s = p @ t"
    by (simp add: p_def t_def)
  have "CHR ''{'' \<notin> set p"
    unfolding p_def by (auto dest: set_takeWhileD)
  moreover from q(1) m(2) have "t \<noteq> []" by auto
  then have "hd t = CHR ''{''"
    unfolding t_def using hd_dropWhile [of "\<lambda>c. c \<noteq> CHR ''{''" s] by auto
  with q(1) m(2) have "hd m = CHR ''{''"
    by (cases m) auto
  ultimately show ?thesis
    using s q by auto
qed

lemma stripFence_no_backtick:
  assumes "CHR ''`'' \<notin> set s" and "lit \<noteq> []" and "hd lit = CHR ''`''"
  shows "stripFence lit s = s"
  using assms(1)
proof (induction s)
  case Nil
  then show ?case by simp
next
  case (Cons c cs)
  from assms(2,3) Cons.prems have "\<not> prefix lit (c # cs)"
    by (cases lit) auto
  with Cons show ?case by simp
qed

lemma stripFence_skip:
  assumes "CHR ''`'' \<notin> set b" and "lit \<noteq> []" and "hd lit = CHR ''`''"
  shows "stripFence lit (b @ s) = b @ stripFence lit s"
  using assms(1)
proof (induction b)
  case Nil
  then show ?case by simp
next
  case (Cons c cs)
  from assms(2,3) Cons.prems have "\<not> prefix lit ((c # cs) @ s)"
    by (cases lit) auto
  with Cons show ?case by simp
qed

lemma space_not_backtick: "isSpaceJS c \<Longrightarrow> c \<noteq> CHR ''`''"
  by (auto simp: isSpaceJS_def)

lemma dropWhile_spaces:
  assumes "\<forall>c \<in> set w. isSpaceJS c" and "s \<noteq> [] \<longrightarrow> \<not> isSpaceJS (hd s)"
  shows "dropWhile isSpaceJS (w @ s) = s"
  using assms by (induction w) (auto simp: dropWhile_eq_self_iff)

lemma spaces_no_prefix:
  assumes "\<forall>x \<in> set w. isSpaceJS x" and "\<not> isSpaceJS c"
  shows "\<not> prefix (c # t) w"
  using assms by (cases w) auto

lemma closing_fence_kept:
  assumes "\<forall>c \<in> set w. isSpaceJS c"
  shows "stripFence ''```json'' (''```'' @ w) = ''```'' @ w"
proof -
  have w: "stripFence ''```json'' w = w"
    using assms space_not_backtick by (intro stripFence_no_backtick) auto
  have j: "\<not> isSpaceJS (CHR ''j'')" and q: "\<not> isSpaceJS (CHR ''`'')"
    by (simp_all add: isSpaceJS_def)
  show ?thesis
    using w spaces_no_prefix [OF assms j] spaces_no_prefix [OF assms q]
    by simp
qed

lemma cleanResponse_fenced:
  assumes w1: "\<forall>c \<in> set w1. isSpaceJS c" and w2: "\<forall>c \<in> set w2. isSpaceJS c"
    and b: "CHR ''`'' \<notin> set b" "b \<noteq> []" "\<not> isSpaceJS (hd b)"
  shows "cleanResponse (''```json'' @ w1 @ b @ ''```'' @ w2) = b"
proof -
  have hd: "(b @ ''```'' @ w2) \<noteq> [] \<longrightarrow> \<not> isSpaceJS (hd (b @ ''```'' @ w2))"
    using b by simp
  have "stripFence ''```json'' (''```json'' @ w1 @ b @ ''```'' @ w2)
      = stripFence ''```json'' (dropWhile isSpaceJS (w1 @ b @ ''```'' @ w2))"
    by simp
  also have "\<dots> = stripFence ''```json'' (b @ ''```'' @ w2)"
    using dropWhile_spaces [OF w1 hd] by simp
  also have "\<dots> = b @ stripFence ''```json'' (''```'' @ w2)"
    using b(1) by (intro stripFence_skip) auto
  also have "\<dots> = b @ ''```'' @ w2"
    using closing_fence_kept [OF w2] by simp
  finally have one: "stripFence ''```json'' (''```json'' @ w1 @ b @ ''```'' @ w2) = b @ ''```'' @ w2" .
  have "stripFence ''```'' (b @ ''```'' @ w2) = b @ stripFence ''```'' (''```'' @ w2)"
    using b(1) by (intro stripFence_skip) auto
  also have "stripFence ''```'' (''```'' @ w2) = stripFence ''```'' (dropWhile isSpaceJS w2)"
    by simp
  also have "dropWhile isSpaceJS w2 = []"
    using w2 by simp
  finally show ?thesis
    unfolding cleanResponse_def one by simp
qed

lemma generate_parsed:
  "completion e = Inr r \<Longrightarrow> parseResponse e r = Inr j \<Longrightarrow>
   generateJournalEntry e ocrData = Inr (Parsed j)"
  by (simp add: generateJournalEntry_def tryGenerate_def)

lemma generate_Parsed_iff:
  "generateJournalEntry e ocrData = Inr (Parsed j) \<longleftrightarrow>
     (\<exists>r. completion e = Inr r \<and> parseResponse e r = Inr j)"
  by (auto simp: generateJournalEntry_def tryGenerate_def split: sum.splits)

lemma generate_Built_iff:
  "generateJournalEntry e ocrData = Inr (Built je) \<longleftrightarrow>
     (\<exists>err. tryGenerate e ocrData = Inl err)
     \<and> createFallbackJournalEntry e ocrData (extractAmountFromOCR e ocrData)
          (fallbackDate e ocrData) = Inr je"
  by (auto simp: generateJournalEntry_def split: sum.splits)

text \<open>
  C6. The reply is parsed in three stages, in this order: as it is; with the code-fence
  markers removed; the span from its first opening brace to its last closing brace of
  the text without the markers. The first stage that parses gives the result, which
  the orchestrator returns without building a fallback entry. An error is raised exactly
  when all three fail (the third also when there is no such span), and only then does
  the orchestrator turn to the fallback builder; nothing is returned that
  \<^verbatim>\<open>JSON.parse\<close> did not produce. A reply that is one fenced block loses its fence in
  the second stage.
\<close>

theorem parse_recovery_stages:
  "(JSON_parse e r = Some j \<longrightarrow> parseResponse e r = Inr j)
   \<and> (JSON_parse e r = None \<and> JSON_parse e (cleanResponse r) = Some j
        \<longrightarrow> parseResponse e r = Inr j)
   \<and> (JSON_parse e r = None \<and> JSON_parse e (cleanResponse r) = None
        \<and> braceSpan (cleanResponse r) = Some m \<and> JSON_parse e m = Some j
        \<longrightarrow> parseResponse e r = Inr j)
   \<and> ((\<exists>err. parseResponse e r = Inl err) \<longleftrightarrow>
        JSON_parse e r = None \<and> JSON_parse e (cleanResponse r) = None
        \<and> (\<forall>m. braceSpan (cleanResponse r) = Some m \<longrightarrow> JSON_parse e m = None))
   \<and> (braceSpan s = Some m
        \<longrightarrow> (\<exists>p q. s = p @ m @ q \<and> CHR ''{'' \<notin> set p \<and> CHR ''}'' \<notin> set q
              \<and> hd m = CHR ''{'' \<and> last m = CHR ''}''))
   \<and> ((\<forall>c \<in> set w1. isSpaceJS c) \<and> (\<forall>c \<in> set w2. isSpaceJS c)
        \<and> CHR ''`'' \<notin> set b \<and> b \<noteq> [] \<and> \<not> isSpaceJS (hd b)
        \<longrightarrow> cleanResponse (''```json'' @ w1 @ b @ ''```'' @ w2) = b)
   \<and> (completion e = Inr r \<and> parseResponse e r = Inr j
        \<longrightarrow> generateJournalEntry e ocrData = Inr (Parsed j))
   \<and> (completion e = Inr r \<and> parseResponse e r = Inl err
        \<longrightarrow> generateJournalEntry e ocrData =
            map_sum id Built
              (createFallbackJournalEntry e ocrData (extractAmountFromOCR e ocrData)
                 (fallbackDate e ocrData)))"
proof -
  have fence: "cleanResponse (''```json'' @ w1 @ b @ ''```'' @ w2) = b"
    if "\<forall>c \<in> set w1. isSpaceJS c" "\<forall>c \<in> set w2. isSpaceJS c"
      "CHR ''`'' \<notin> set b" "b \<noteq> []" "\<not> isSpaceJS (hd b)"
    using that by (rule cleanResponse_fenced)
  have fall: "generateJournalEntry e ocrData =
      map_sum id Built
        (createFallbackJournalEntry e ocrData (extractAmountFromOCR e ocrData)
           (fallbackDate e ocrData))"
    if "completion e = Inr r" "parseResponse e r = Inl err"
    using that by (simp add: generateJournalEntry_def tryGenerate_def split: sum.splits)
  from fence fall show ?thesis
    using parseResponse_stage1 [of e r j] parseResponse_stage2 [of e r j]
      parseResponse_stage3 [of e r m j] parseResponse_fails [of e r] braceSpan_outermost [of s m]
      generate_parsed [of e r j ocrData]
    by blast
qed

theorem parse_recovery_stages_witness:
  "JSON_parse (online fencedReply) fencedReply = None
   \<and> cleanResponse fencedReply = ''{\"totalDebit\": 50, \"totalCredit\": 50}'' @ [CHR 0x0A]
   \<and> JSON_parse (online fencedReply) (cleanResponse fencedReply) = Some replyObject
   \<and> parseResponse (online fencedReply) fencedReply = Inr replyObject
   \<and> generateJournalEntry (online fencedReply) receiptA = Inr (Parsed replyObject)
   \<and> JSON_parse (online proseReply) proseReply = None
   \<and> JSON_parse (online proseReply) (cleanResponse proseReply) = None
   \<and> braceSpan (cleanResponse proseReply) = Some ''{\"totalDebit\": 50, \"totalCredit\": 50}''
   \<and> JSON_parse (online proseReply) ''{\"totalDebit\": 50, \"totalCredit\": 50}'' = Some replyObject
   \<and> parseResponse (online proseReply) proseReply = Inr replyObject
   \<and> generateJournalEntry (online proseReply) receiptA = Inr (Parsed replyObject)
   \<and> JSON_parse (online garbageReply) garbageReply = None
   \<and> JSON_parse (online garbageReply) (cleanResponse garbageReply) = None
   \<and> braceSpan (cleanResponse garbageReply) = None
   \<and> parseResponse (online garbageReply) garbageReply = Inl NoJSONFound
   \<and> generateJournalEntry (online garbageReply) receiptA =
       map_sum id Built
         (createFallbackJournalEntry (online garbageReply) receiptA
            (extractAmountFromOCR (online garbageReply) receiptA)
            (fallbackDate (online garbageReply) receiptA))
   \<and> \<not> isl (generateJournalEntry (online garbageReply) receiptA)"
proof -
  let ?span = "''{\"totalDebit\": 50, \"totalCredit\": 50}''"
  have f1: "JSON_parse (online fencedReply) fencedReply = None"
    and f2: "JSON_parse (online fencedReply) (cleanResponse fencedReply) = Some replyObject"
    and f3: "completion (online fencedReply) = Inr fencedReply"
    by code_simp+
  have p1: "JSON_parse (online proseReply) proseReply = None"
    and p2: "JSON_parse (online proseReply) (cleanResponse proseReply) = None"
    and p3: "braceSpan (cleanResponse proseReply) = Some ?span"
    and p4: "JSON_parse (online proseReply) ?span = Some replyObject"
    and p5: "completion (online proseReply) = Inr proseReply"
    by code_simp+
  have g1: "JSON_parse (online garbageReply) garbageReply = None"
    and g2: "JSON_parse (online garbageReply) (cleanResponse garbageReply) = None"
    and g3: "braceSpan (cleanResponse garbageReply) = None"
    and g4: "parseResponse (online garbageReply) garbageReply = Inl NoJSONFound"
    and g5: "completion (online garbageReply) = Inr garbageReply"
    and g6: "\<not> isl (generateJournalEntry (online garbageReply) receiptA)"
    by code_simp+
  have w: "\<forall>c \<in> set [CHR 0x0A]. isSpaceJS c" "\<forall>c \<in> set []. isSpaceJS c"
    and b: "CHR ''`'' \<notin> set (?span @ [CHR 0x0A])" "?span @ [CHR 0x0A] \<noteq> []"
      "\<not> isSpaceJS (hd (?span @ [CHR 0x0A]))"
    by (simp_all add: isSpaceJS_def)
  have shape: "fencedReply = ''```json'' @ [CHR 0x0A] @ (?span @ [CHR 0x0A]) @ ''```'' @ []"
    by (simp add: fencedReply_def)
  from parse_recovery_stages [where ?w1.0 = "[CHR 0x0A]" and ?w2.0 = "[]"
      and b = "?span @ [CHR 0x0A]"] w b
  have c: "cleanResponse fencedReply = ?span @ [CHR 0x0A]"
    unfolding shape by blast
  from parse_recovery_stages [of "online fencedReply" fencedReply replyObject] f1 f2
  have f: "parseResponse (online fencedReply) fencedReply = Inr replyObject"
    by blast
  from parse_recovery_stages [of "online fencedReply" fencedReply replyObject, where ocrData = receiptA]
    f3 f
  have fg: "generateJournalEntry (online fencedReply) receiptA = Inr (Parsed replyObject)"
    by blast
  from parse_recovery_stages [of "online proseReply" proseReply replyObject ?span] p1 p2 p3 p4
  have p: "parseResponse (online proseReply) proseReply = Inr replyObject"
    by blast
  from parse_recovery_stages [of "online proseReply" proseReply replyObject, where ocrData = receiptA]
    p5 p
  have pg: "generateJournalEntry (online proseReply) receiptA = Inr (Parsed replyObject)"
    by blast
  from parse_recovery_stages [where e = "online garbageReply" and r = garbageReply
      and err = NoJSONFound and ocrData = receiptA] g5 g4
  have gg: "generateJournalEntry (online garbageReply) receiptA =
       map_sum id Built
         (createFallbackJournalEntry (online garbageReply) receiptA
            (extractAmountFromOCR (online garbageReply) receiptA)
            (fallbackDate (online garbageReply) receiptA))"
    by blast
  from f1 c f2 f fg p1 p2 p3 p4 p pg g1 g2 g3 g4 gg g6 show ?thesis
    by blast
qed

subsection \<open>What the orchestrator returns\<close>

text \<open>
  C10. When one of the three parsing stages succeeds on the reply, the orchestrator
  returns the value that \<^verbatim>\<open>JSON.parse\<close> gave, as it is: whatever the value, with no
  check of its balance, of its fields or of its shape.
\<close>

theorem parsed_value_returned_unchanged:
  "completion e = Inr r \<Longrightarrow>
     (JSON_parse e r = Some j \<longrightarrow> generateJournalEntry e ocrData = Inr (Parsed j))
   \<and> (JSON_parse e r = None \<and> JSON_parse e (cleanResponse r) = Some j
        \<longrightarrow> generateJournalEntry e ocrData = Inr (Parsed j))
   \<and> (JSON_parse e r = None \<and> JSON_parse e (cleanResponse r) = None
        \<and> braceSpan (cleanResponse r) = Some m \<and> JSON_parse e m = Some j
        \<longrightarrow> generateJournalEntry e ocrData = Inr (Parsed j))
   \<and> (parseResponse e r = Inr j \<longrightarrow> generateJournalEntry e ocrData = Inr (Parsed j))"
  using parseResponse_stage1 [of e r j] parseResponse_stage2 [of e r j]
    parseResponse_stage3 [of e r m j] generate_parsed [of e r j ocrData]
  by blast

theorem parsed_value_returned_unchanged_witness:
  "completion (online bareReply) = Inr bareReply
   \<and> JSON_parse (online bareReply) bareReply = Some (Obj [(''note'', Str ''no entry'')])
   \<and> generateJournalEntry (online bareReply) receiptA = Inr (Parsed (Obj [(''note'', Str ''no entry'')]))
   \<and> completion (online ''7'') = Inr ''7''
   \<and> JSON_parse (online ''7'') ''7'' = Some (Num (Fin 7))
   \<and> generateJournalEntry (online ''7'') receiptA = Inr (Parsed (Num (Fin 7)))"
proof -
  have a: "completion (online bareReply) = Inr bareReply"
    and b: "JSON_parse (online bareReply) bareReply = Some (Obj [(''note'', Str ''no entry'')])"
    and c: "completion (online ''7'') = Inr ''7''"
    and d: "JSON_parse (online ''7'') ''7'' = Some (Num (Fin 7))"
    by code_simp+
  from parsed_value_returned_unchanged [OF a, of "Obj [(''note'', Str ''no entry'')]" receiptA] b
  have "generateJournalEntry (online bareReply) receiptA = Inr (Parsed (Obj [(''note'', Str ''no entry'')]))"
    by blast
  moreover from parsed_value_returned_unchanged [OF c, of "Num (Fin 7)" receiptA] d
  have "generateJournalEntry (online ''7'') receiptA = Inr (Parsed (Num (Fin 7)))"
    by blast
  ultimately show ?thesis
    using a b c d by blast
qed

text \<open>
  C1, as the code has it. The orchestrator checks neither the balance nor the fields of
  what it returns. An entry built by the fallback path has both totals equal to the
  extracted amount rounded to two decimals, so they agree when that amount is a number;
  a value parsed from the reply is returned as parsed.
\<close>

theorem fallback_totals_balanced:
  "(generateJournalEntry e ocrData = Inr (Built je) \<and> extractAmountFromOCR e ocrData = Fin a
      \<longrightarrow> totalDebit je = toFixed2 (Fin a) \<and> totalCredit je = toFixed2 (Fin a)
        \<and> num_eq (totalDebit je) (totalCredit je) \<and> totalsBalanced (Built je))
   \<and> (generateJournalEntry e ocrData = Inr (Parsed j)
      \<longrightarrow> (\<exists>r. completion e = Inr r \<and> parseResponse e r = Inr j))"
proof -
  have fb: "totalDebit je = toFixed2 (Fin a) \<and> totalCredit je = toFixed2 (Fin a)
        \<and> num_eq (totalDebit je) (totalCredit je) \<and> totalsBalanced (Built je)"
    if b: "generateJournalEntry e ocrData = Inr (Built je)"
      and a: "extractAmountFromOCR e ocrData = Fin a"
  proof -
    from b a have "createFallbackJournalEntry e ocrData (Fin a) (fallbackDate e ocrData) = Inr je"
      by (simp add: generate_Built_iff)
    from createFallback_Inr [OF this]
    have t: "totalDebit je = toFixed2 (Fin a)" "totalCredit je = toFixed2 (Fin a)"
      by auto
    obtain y where "toFixed2 (Fin a) = Fin y"
      using toFixed2_Fin [of a] by blast
    with t show ?thesis by simp
  qed
  have "generateJournalEntry e ocrData = Inr (Parsed j)
      \<longrightarrow> (\<exists>r. completion e = Inr r \<and> parseResponse e r = Inr j)"
    by (simp add: generate_Parsed_iff)
  with fb show ?thesis
    by blast
qed

theorem fallback_totals_balanced_witness:
  "generateJournalEntry offline receiptA = Inr (Built (projr (createFallbackJournalEntry offline receiptA (Fin (51 / 2)) ''02/11/2026'')))
   \<and> extractAmountFromOCR offline receiptA = Fin (51 / 2)
   \<and> totalDebit (projr (createFallbackJournalEntry offline receiptA (Fin (51 / 2)) ''02/11/2026'')) = Fin (51 / 2)
   \<and> totalCredit (projr (createFallbackJournalEntry offline receiptA (Fin (51 / 2)) ''02/11/2026'')) = Fin (51 / 2)
   \<and> totalsBalanced (Built (projr (createFallbackJournalEntry offline receiptA (Fin (51 / 2)) ''02/11/2026'')))"
proof -
  let ?je = "projr (createFallbackJournalEntry offline receiptA (Fin (51 / 2)) ''02/11/2026'')"
  have g: "generateJournalEntry offline receiptA = Inr (Built ?je)"
    and a: "extractAmountFromOCR offline receiptA = Fin (51 / 2)"
    and r: "toFixed2 (Fin (51 / 2)) = Fin (51 / 2)"
    by code_simp+
  from fallback_totals_balanced [of offline receiptA ?je "51 / 2"] g a
  have "totalDebit ?je = toFixed2 (Fin (51 / 2)) \<and> totalCredit ?je = toFixed2 (Fin (51 / 2))
      \<and> totalsBalanced (Built ?je)"
    by blast
  with g a r show ?thesis
    by simp
qed

theorem unchecked_reply_counterexample:
  "generateJournalEntry (online unbalancedReply) receiptA = Inr (Parsed unbalancedObject)
   \<and> \<not> totalsBalanced (Parsed unbalancedObject)"
  by code_simp

subsection \<open>When the orchestrator fails\<close>

text \<open>
  C2. The orchestrator is meant never to fail. With the text model out of reach, or with
  a reply that does not parse, a receipt whose vendor is a nested object makes the
  fallback builder throw at \<^verbatim>\<open>merchant.toLowerCase()\<close>, and the error leaves
  \<^verbatim>\<open>generateJournalEntry\<close>.
\<close>

theorem orchestrator_throws_on_nested_vendor:
  "generateJournalEntry offline receiptNestedVendor = Inl TypeError
   \<and> generateJournalEntry (online garbageReply) receiptNestedVendor = Inl TypeError
   \<and> extractAmountFromOCR offline receiptNestedVendor = Fin 45"
  by code_simp

text \<open>
  The orchestrator fails exactly when the generative path fails and the OCR data is
  nullish or its merchant is not a text, and then with a \<^verbatim>\<open>TypeError\<close>; in every
  other case it returns the parsed value or the fallback entry.
\<close>

theorem orchestrator_failure:
  "(generateJournalEntry e ocrData = Inl err \<longleftrightarrow>
      (\<exists>x. tryGenerate e ocrData = Inl x)
      \<and> (nullish ocrData \<or> \<not> isString (merchantOf e ocrData)) \<and> err = TypeError)
   \<and> (\<not> nullish ocrData \<and> isString (merchantOf e ocrData)
        \<longrightarrow> (\<exists>d. generateJournalEntry e ocrData = Inr d))"
proof -
  have c: "(\<exists>je. createFallbackJournalEntry e ocrData amount dt = Inr je)
      \<or> createFallbackJournalEntry e ocrData amount dt = Inl TypeError" for amount dt
    by (cases "merchantOf e ocrData")
      (simp_all add: createFallbackJournalEntry_def Let_def split: prod.splits)
  have f: "createFallbackJournalEntry e ocrData amount dt = Inl TypeError \<longleftrightarrow>
      nullish ocrData \<or> \<not> isString (merchantOf e ocrData)" for amount dt
    by (cases "merchantOf e ocrData")
      (simp_all add: createFallbackJournalEntry_def Let_def split: prod.splits)
  show ?thesis
    using c [of "extractAmountFromOCR e ocrData" "fallbackDate e ocrData"]
      f [of "extractAmountFromOCR e ocrData" "fallbackDate e ocrData"]
    by (auto simp: generateJournalEntry_def split: sum.splits)
qed

theorem orchestrator_failure_witness:
  "\<not> nullish receiptA \<and> isString (merchantOf offline receiptA)
   \<and> (\<exists>d. generateJournalEntry offline receiptA = Inr d)
   \<and> tryGenerate offline receiptNestedVendor = Inl ApiError
   \<and> \<not> isString (merchantOf offline receiptNestedVendor)
   \<and> generateJournalEntry offline receiptNestedVendor = Inl TypeError"
proof -
  have a: "\<not> nullish receiptA \<and> isString (merchantOf offline receiptA)"
    and t: "tryGenerate offline receiptNestedVendor = Inl ApiError"
    and m: "\<not> isString (merchantOf offline receiptNestedVendor)"
    by code_simp+
  from orchestrator_failure [of offline receiptA] a
  have "\<exists>d. generateJournalEntry offline receiptA = Inr d"
    by blast
  moreover from orchestrator_failure [of offline receiptNestedVendor TypeError] t m
  have "generateJournalEntry offline receiptNestedVendor = Inl TypeError"
    by blast
  ultimately show ?thesis
    using a t m by blast
qed

subsection \<open>What the fallback derivation depends on\<close>

lemma extractDate_cong:
  assumes "JSON_stringify e1 = JSON_stringify e2" and "Date_en_GB e1 = Date_en_GB e2"
  shows "extractDateFromOCR e1 ocrData = extractDateFromOCR e2 ocrData"
  by (simp only: extractDateFromOCR_def tryExtractDate_def assms)

lemma extractAmount_cong:
  assumes "JSON_stringify e1 = JSON_stringify e2"
  shows "extractAmountFromOCR e1 ocrData = extractAmountFromOCR e2 ocrData"
  by (simp only: extractAmountFromOCR_def tryExtractAmount_def assms)

lemma createFallback_cong:
  assumes "JSON_stringify e1 = JSON_stringify e2"
  shows "createFallbackJournalEntry e1 ocrData amount dt
    = createFallbackJournalEntry e2 ocrData amount dt"
  by (simp only: createFallbackJournalEntry_def merchantOf_def assms)

text \<open>
  C9, as the code has it. The fallback derivation is a function of the OCR data, of the
  built-ins and of the current date: two invocations in which the generative path fails
  return the same on equal OCR data when the current date is the same, and also when a
  date is extracted from the OCR data, which is then the date of the entry; otherwise
  the date of the entry is the day of the invocation.
\<close>

theorem fallback_deterministic_given_date:
  "JSON_stringify e1 = JSON_stringify e2 \<Longrightarrow> Date_en_GB e1 = Date_en_GB e2 \<Longrightarrow>
   tryGenerate e1 ocrData = Inl x1 \<Longrightarrow> tryGenerate e2 ocrData = Inl x2 \<Longrightarrow>
     ((today e1 = today e2 \<or> (\<exists>d. extractDateFromOCR e1 ocrData = Some d \<and> d \<noteq> []))
        \<longrightarrow> generateJournalEntry e1 ocrData = generateJournalEntry e2 ocrData)
   \<and> (extractDateFromOCR e1 ocrData = None \<and> generateJournalEntry e1 ocrData = Inr (Built je)
        \<longrightarrow> date je = today e1)"
proof -
  assume s: "JSON_stringify e1 = JSON_stringify e2" and d: "Date_en_GB e1 = Date_en_GB e2"
    and t1: "tryGenerate e1 ocrData = Inl x1" and t2: "tryGenerate e2 ocrData = Inl x2"
  have same: "generateJournalEntry e1 ocrData = generateJournalEntry e2 ocrData"
    if "today e1 = today e2 \<or> (\<exists>d. extractDateFromOCR e1 ocrData = Some d \<and> d \<noteq> [])"
  proof -
    from that have "fallbackDate e1 ocrData = fallbackDate e2 ocrData"
      using extractDate_cong [OF s d, of ocrData] by (auto simp: fallbackDate_def split: option.splits)
    then show ?thesis
      using t1 t2 extractAmount_cong [OF s, of ocrData]
        createFallback_cong [OF s, of ocrData "extractAmountFromOCR e2 ocrData" "fallbackDate e2 ocrData"]
      by (simp add: generateJournalEntry_def)
  qed
  have day: "date je = today e1"
    if "extractDateFromOCR e1 ocrData = None" "generateJournalEntry e1 ocrData = Inr (Built je)"
  proof -
    from that have "createFallbackJournalEntry e1 ocrData (extractAmountFromOCR e1 ocrData)
        (today e1) = Inr je"
      by (simp add: generate_Built_iff fallbackDate_def)
    from createFallback_Inr [OF this] show ?thesis
      by auto
  qed
  from same day show ?thesis
    by blast
qed

theorem fallback_deterministic_given_date_witness:
  "JSON_stringify offlineYesterday = JSON_stringify offline
   \<and> Date_en_GB offlineYesterday = Date_en_GB offline
   \<and> tryGenerate offlineYesterday receiptDated = Inl ApiError
   \<and> tryGenerate offline receiptDated = Inl ApiError
   \<and> extractDateFromOCR offlineYesterday receiptDated = Some ''15/03/2024''
   \<and> generateJournalEntry offlineYesterday receiptDated = generateJournalEntry offline receiptDated
   \<and> extractDateFromOCR offlineYesterday receiptA = None
   \<and> generateJournalEntry offlineYesterday receiptA
       = Inr (Built (projr (createFallbackJournalEntry offlineYesterday receiptA (Fin (51 / 2)) ''01/11/2026'')))
   \<and> date (projr (createFallbackJournalEntry offlineYesterday receiptA (Fin (51 / 2)) ''01/11/2026''))
       = today offlineYesterday"
proof -
  let ?je = "projr (createFallbackJournalEntry offlineYesterday receiptA (Fin (51 / 2)) ''01/11/2026'')"
  have s: "JSON_stringify offlineYesterday = JSON_stringify offline"
    and d: "Date_en_GB offlineYesterday = Date_en_GB offline"
    by (simp_all add: offlineYesterday_def offline_def ref_env_def)
  have t1: "tryGenerate offlineYesterday receiptDated = Inl ApiError"
    and t2: "tryGenerate offline receiptDated = Inl ApiError"
    and t3: "tryGenerate offlineYesterday receiptA = Inl ApiError"
    and t4: "tryGenerate offline receiptA = Inl ApiError"
    and x: "extractDateFromOCR offlineYesterday receiptDated = Some ''15/03/2024''"
    and n: "extractDateFromOCR offlineYesterday receiptA = None"
    and g: "generateJournalEntry offlineYesterday receiptA = Inr (Built ?je)"
    by code_simp+
  from fallback_deterministic_given_date [OF s d t1 t2] x
  have "generateJournalEntry offlineYesterday receiptDated = generateJournalEntry offline receiptDated"
    by simp
  moreover from fallback_deterministic_given_date [OF s d t3 t4, of ?je] n g
  have "date ?je = today offlineYesterday"
    by blast
  ultimately show ?thesis
    using s d t1 t2 x n g by blast
qed

theorem clock_dependence_counterexample:
  "generateJournalEntry offlineYesterday receiptA \<noteq> generateJournalEntry offline receiptA"
  by code_simp

end
